theory Spec2Isabelle
  imports Main "HOL-Library.Word" "HOL-Library.Monad_Syntax"
begin

unbundle bit_operations_syntax

section \<open>The RCC register block (STM32F446xx.h)\<close>

type_synonym u8 = "8 word"
type_synonym u32 = "32 word"

text \<open>
  \<^verbatim>\<open>RCC_RegDef_t\<close>: one field per named 32-bit register, in the order of the C
  struct. The \<^verbatim>\<open>RESERVEDn\<close> padding words are never accessed by the driver and are
  left out.
\<close>

record rcc =
  CR :: u32
  PLLCFGR :: u32
  CFGR :: u32
  CIR :: u32
  AHB1RSTR :: u32
  AHB2RSTR :: u32
  AHB3RSTR :: u32
  APB1RSTR :: u32
  APB2RSTR :: u32
  AHB1ENR :: u32
  AHB2ENR :: u32
  AHB3ENR :: u32
  APB1ENR :: u32
  APB2ENR :: u32
  AHB1LPENR :: u32
  AHB2LPENR :: u32
  AHB3LPENR :: u32
  APB1LPENR :: u32
  APB2LPENR :: u32
  BDCR :: u32
  CSR :: u32
  SSCGR :: u32
  PLLI2SCFGR :: u32
  PLLSAICFGR :: u32
  DCKCFGR :: u32
  CKGATENR :: u32
  DCKCFGR2 :: u32

text \<open>
  The registers are \<^verbatim>\<open>volatile\<close>: the clock hardware changes them while the driver
  runs. The hardware is a parameter of the model, a function on the register block that
  is applied once between two successive reads of a busy-wait loop. A read-modify-write
  statement (\<^verbatim>\<open>reg |= m\<close>, \<^verbatim>\<open>reg &= ~m\<close>) is one step of the driver.
\<close>

type_synonym hardware = "rcc \<Rightarrow> rcc"

section \<open>Enumerations of RCC\_private.h\<close>

text \<open>
  Modelled from the spec: \<^verbatim>\<open>RCC_private.h\<close> (the enumerations \<^verbatim>\<open>CLK_t\<close>,
  \<^verbatim>\<open>STATUS_t\<close>, \<^verbatim>\<open>SYS_CLK_t\<close>, \<^verbatim>\<open>HSE_t\<close>) is not among the sources. A clock
  source is its enable bit position in the control register (the driver computes
  \<^verbatim>\<open>1 << Clk_Type\<close>): bit 0 for the internal oscillator (HSI), bit 16 for the
  external oscillator (HSE). \<^verbatim>\<open>RCC_PLL_Config\<close> compares its source with these two.
\<close>

definition HSI :: nat where "HSI = 0"
definition HSE :: nat where "HSE = 16"

text \<open>
  Modelled from the spec: the status of a clock source is ON or OFF. The driver tests
  \<^verbatim>\<open>Status == ON\<close> only.
\<close>

datatype STATUS_t = OFF | ON

text \<open>
  Modelled from the spec: \<^verbatim>\<open>SYSPLLP\<close> is the last accepted system clock option; the
  valid selector values are 0 to 3.
\<close>

definition SYSPLLP :: u32 where "SYSPLLP = 3"

text \<open>
  Modelled from the spec: the external oscillator mode has the two recognised states;
  \<open>HSE_raw n\<close> stands for any other value of the C enumeration type, whose numeric
  values the sources do not give.
\<close>

datatype HSE_t = BYPASSED | NOT_BYPASSED | HSE_raw nat

section \<open>Busy-wait loops\<close>

text \<open>
  \<^verbatim>\<open>while (cond);\<close> with an empty body: the condition is read again after every
  hardware step, with no bound on the number of reads. A loop whose condition never
  becomes false has no result (\<open>None\<close>).
\<close>

partial_function (option) poll :: "hardware \<Rightarrow> (rcc \<Rightarrow> bool) \<Rightarrow> rcc \<Rightarrow> rcc option" where
  "poll hw waiting s = (if waiting s then poll hw waiting (hw s) else Some s)"

declare poll.simps [code]

section \<open>Clock sources (RCC\_prog.c, lines 16--144)\<close>

text \<open>
  \<^verbatim>\<open>RCC_SetClkStatus\<close>, lines 16--32. It has one return statement, \<^verbatim>\<open>return 0\<close>,
  and does not check \<^verbatim>\<open>Clk_Type\<close>. The shifts of the C code are defined for a ready
  bit position \<^verbatim>\<open>Clk_Type + 1\<close> up to 31; the statements below about this function
  are for \<^verbatim>\<open>Clk_Type\<close> up to 30.
\<close>

definition RCC_SetClkStatus :: "hardware \<Rightarrow> nat \<Rightarrow> STATUS_t \<Rightarrow> rcc \<Rightarrow> (u8 \<times> rcc) option" where
  "RCC_SetClkStatus hw Clk_Type Status s =
     do {
       let s1 = (if Status = ON then s\<lparr>CR := CR s OR push_bit Clk_Type 1\<rparr>
                 else s\<lparr>CR := CR s AND NOT (push_bit Clk_Type 1)\<rparr>);
       s2 \<leftarrow> poll hw (\<lambda>t. drop_bit (Clk_Type + 1) (CR t) AND 1 = 0) s1;
       Some (0, s2)
     }"

text \<open>\<^verbatim>\<open>RCC_SetSysClk\<close>, lines 42--58.\<close>

definition RCC_SetSysClk :: "hardware \<Rightarrow> u32 \<Rightarrow> rcc \<Rightarrow> (u8 \<times> rcc) option" where
  "RCC_SetSysClk hw SYSClkType s =
     (if SYSClkType > SYSPLLP then Some (1, s)
      else do {
        let s1 = s\<lparr>CFGR := CFGR s AND NOT (push_bit 0 3)\<rparr>;
        let s2 = s1\<lparr>CFGR := CFGR s1 OR push_bit 0 SYSClkType\<rparr>;
        s3 \<leftarrow> poll hw (\<lambda>t. drop_bit 2 (CFGR t) AND 3 \<noteq> SYSClkType) s2;
        Some (0, s3)
      })"

text \<open>\<^verbatim>\<open>RCC_HSE_Mode\<close>, lines 68--78. No loop: the function always returns.\<close>

definition RCC_HSE_Mode :: "HSE_t \<Rightarrow> rcc \<Rightarrow> u8 \<times> rcc" where
  "RCC_HSE_Mode HSE_MODE s =
     (if HSE_MODE = BYPASSED then (0, s\<lparr>CR := CR s OR push_bit 18 1\<rparr>)
      else if HSE_MODE = NOT_BYPASSED then (0, s\<lparr>CR := CR s AND NOT (push_bit 18 1)\<rparr>)
      else (1, s))"

text \<open>
  The source selection of \<^verbatim>\<open>RCC_PLL_Config\<close>, lines 95--101; \<open>None\<close> is its
  last branch, \<^verbatim>\<open>return 1\<close>.
\<close>

definition PLL_source :: "nat \<Rightarrow> rcc \<Rightarrow> rcc option" where
  "PLL_source Src s =
     (if Src = HSI then Some (s\<lparr>PLLCFGR := PLLCFGR s AND NOT (push_bit 22 1)\<rparr>)
      else if Src = HSE then Some (s\<lparr>PLLCFGR := PLLCFGR s OR push_bit 22 1\<rparr>)
      else None)"

text \<open>
  The \<^verbatim>\<open>switch (PLL_Division)\<close> of \<^verbatim>\<open>RCC_PLL_Config\<close>, lines 122--137; \<open>None\<close> is
  its \<^verbatim>\<open>default\<close> branch.
\<close>

definition PLLP_switch :: "u8 \<Rightarrow> rcc \<Rightarrow> rcc option" where
  "PLLP_switch PLL_Division s =
     (if PLL_Division = 2 then Some (s\<lparr>PLLCFGR := PLLCFGR s AND NOT (push_bit 16 3)\<rparr>)
      else if PLL_Division = 4 then
        Some (s\<lparr>PLLCFGR := (PLLCFGR s AND NOT (push_bit 16 3)) OR push_bit 16 1\<rparr>)
      else if PLL_Division = 6 then
        Some (s\<lparr>PLLCFGR := (PLLCFGR s AND NOT (push_bit 16 3)) OR push_bit 16 2\<rparr>)
      else if PLL_Division = 8 then
        Some (s\<lparr>PLLCFGR := (PLLCFGR s AND NOT (push_bit 16 3)) OR push_bit 16 3\<rparr>)
      else None)"

text \<open>
  \<^verbatim>\<open>RCC_PLL_Config\<close>, lines 89--144. \<^verbatim>\<open>PLL_Division\<close> is a \<^verbatim>\<open>uint8_t\<close>, widened
  where it is written into the register.
\<close>

definition RCC_PLL_Config :: "hardware \<Rightarrow> u32 \<Rightarrow> u8 \<Rightarrow> nat \<Rightarrow> rcc \<Rightarrow> (u8 \<times> rcc) option" where
  "RCC_PLL_Config hw PLL_Multiplexer PLL_Division Src s =
     do {
       s1 \<leftarrow> poll hw (\<lambda>t. drop_bit 25 (CR t) AND 1 \<noteq> 0) (s\<lparr>CR := CR s AND NOT (push_bit 24 1)\<rparr>);
       case PLL_source Src s1 of
         None \<Rightarrow> Some (1, s1)
       | Some s2 \<Rightarrow>
           if PLL_Multiplexer < 50 \<or> PLL_Multiplexer > 432 then Some (1, s2)
           else if PLL_Division < 2 \<or> PLL_Division > 63 then Some (1, s2)
           else do {
             let s3 = s2\<lparr>PLLCFGR := PLLCFGR s2 AND NOT (push_bit 0 0x3F)\<rparr>;
             let s4 = s3\<lparr>PLLCFGR := PLLCFGR s3 AND NOT (push_bit 6 0x1FF)\<rparr>;
             let s5 = s4\<lparr>PLLCFGR := PLLCFGR s4 OR push_bit 0 (ucast PLL_Division)\<rparr>;
             let s6 = s5\<lparr>PLLCFGR := PLLCFGR s5 OR push_bit 6 PLL_Multiplexer\<rparr>;
             case PLLP_switch PLL_Division s6 of
               None \<Rightarrow> Some (1, s6)
             | Some s7 \<Rightarrow> do {
                 s8 \<leftarrow> poll hw (\<lambda>t. \<not> (drop_bit 25 (CR t) AND 1 \<noteq> 0))
                         (s7\<lparr>CR := CR s7 OR push_bit 24 1\<rparr>);
                 Some (0, s8)
               }
           }
     }"

section \<open>Peripheral bus clock gating (RCC\_prog.c, lines 152--294)\<close>

text \<open>
  The peripheral enumerations (declared in \<^verbatim>\<open>RCC_private.h\<close>) are used as bit
  positions: the functions compare them with 31 and shift by them, so a peripheral is
  modelled by its numeric value.
\<close>

definition RCC_AHB1_EnableClk :: "nat \<Rightarrow> rcc \<Rightarrow> u8 \<times> rcc" where
  "RCC_AHB1_EnableClk PeripheralName s =
     (if PeripheralName > 31 then (1, s)
      else (0, s\<lparr>AHB1ENR := AHB1ENR s OR push_bit PeripheralName 1\<rparr>))"

definition RCC_AHB1_DisableClk :: "nat \<Rightarrow> rcc \<Rightarrow> u8 \<times> rcc" where
  "RCC_AHB1_DisableClk PeripheralName s =
     (if PeripheralName > 31 then (1, s)
      else (0, s\<lparr>AHB1ENR := AHB1ENR s AND NOT (push_bit PeripheralName 1)\<rparr>))"

definition RCC_AHB2_EnableClk :: "nat \<Rightarrow> rcc \<Rightarrow> u8 \<times> rcc" where
  "RCC_AHB2_EnableClk PeripheralName s =
     (if PeripheralName > 31 then (1, s)
      else (0, s\<lparr>AHB2ENR := AHB2ENR s OR push_bit PeripheralName 1\<rparr>))"

definition RCC_AHB2_DisableClk :: "nat \<Rightarrow> rcc \<Rightarrow> u8 \<times> rcc" where
  "RCC_AHB2_DisableClk PeripheralName s =
     (if PeripheralName > 31 then (1, s)
      else (0, s\<lparr>AHB2ENR := AHB2ENR s AND NOT (push_bit PeripheralName 1)\<rparr>))"

definition RCC_AHB3_EnableClk :: "nat \<Rightarrow> rcc \<Rightarrow> u8 \<times> rcc" where
  "RCC_AHB3_EnableClk PeripheralName s =
     (if PeripheralName > 31 then (1, s)
      else (0, s\<lparr>AHB3ENR := AHB3ENR s OR push_bit PeripheralName 1\<rparr>))"

definition RCC_AHB3_DisableClk :: "nat \<Rightarrow> rcc \<Rightarrow> u8 \<times> rcc" where
  "RCC_AHB3_DisableClk PeripheralName s =
     (if PeripheralName > 31 then (1, s)
      else (0, s\<lparr>AHB3ENR := AHB3ENR s AND NOT (push_bit PeripheralName 1)\<rparr>))"

definition RCC_APB1_EnableClk :: "nat \<Rightarrow> rcc \<Rightarrow> u8 \<times> rcc" where
  "RCC_APB1_EnableClk PeripheralName s =
     (if PeripheralName > 31 then (1, s)
      else (0, s\<lparr>APB1ENR := APB1ENR s OR push_bit PeripheralName 1\<rparr>))"

definition RCC_APB1_DisableClk :: "nat \<Rightarrow> rcc \<Rightarrow> u8 \<times> rcc" where
  "RCC_APB1_DisableClk PeripheralName s =
     (if PeripheralName > 31 then (1, s)
      else (0, s\<lparr>APB1ENR := APB1ENR s AND NOT (push_bit PeripheralName 1)\<rparr>))"

definition RCC_APB2_EnableClk :: "nat \<Rightarrow> rcc \<Rightarrow> u8 \<times> rcc" where
  "RCC_APB2_EnableClk PeripheralName s =
     (if PeripheralName > 31 then (1, s)
      else (0, s\<lparr>APB2ENR := APB2ENR s OR push_bit PeripheralName 1\<rparr>))"

definition RCC_APB2_DisableClk :: "nat \<Rightarrow> rcc \<Rightarrow> u8 \<times> rcc" where
  "RCC_APB2_DisableClk PeripheralName s =
     (if PeripheralName > 31 then (1, s)
      else (0, s\<lparr>APB2ENR := APB2ENR s AND NOT (push_bit PeripheralName 1)\<rparr>))"

section \<open>Assumptions about the hardware\<close>

text \<open>
  What a statement may assume of the hardware. \<open>preserves hw f\<close>: no hardware step
  changes the observation \<open>f\<close> of the registers (a whole register, a field, one bit).
  \<open>responds hw P Q\<close>: from any register contents that satisfy \<open>P\<close>, finitely many
  hardware steps lead to contents that satisfy \<open>Q\<close>.
\<close>

definition preserves :: "hardware \<Rightarrow> (rcc \<Rightarrow> 'a) \<Rightarrow> bool" where
  "preserves hw f \<longleftrightarrow> (\<forall>t. f (hw t) = f t)"

definition responds :: "hardware \<Rightarrow> (rcc \<Rightarrow> bool) \<Rightarrow> (rcc \<Rightarrow> bool) \<Rightarrow> bool" where
  "responds hw P Q \<longleftrightarrow> (\<forall>t. P t \<longrightarrow> (\<exists>k. Q ((hw ^^ k) t)))"

section \<open>Register values computed by the driver\<close>

text \<open>
  Names for the values that groups of statements of \<^verbatim>\<open>RCC_PLL_Config\<close> and
  \<^verbatim>\<open>RCC_SetSysClk\<close> store, as functions of the value read; the lemmas below relate
  them to the functions above.
\<close>

text \<open>Lines 95--98: the PLL source bit, for a source that is HSI or HSE.\<close>

definition pllcfgr_source :: "nat \<Rightarrow> u32 \<Rightarrow> u32" where
  "pllcfgr_source Src w = (if Src = HSI then w AND NOT (push_bit 22 1) else w OR push_bit 22 1)"

text \<open>Lines 114--119: the PLLM and PLLN fields.\<close>

definition pllcfgr_mn :: "u8 \<Rightarrow> u32 \<Rightarrow> u32 \<Rightarrow> u32" where
  "pllcfgr_mn PLL_Division PLL_Multiplexer w =
     (((w AND NOT (push_bit 0 0x3F)) AND NOT (push_bit 6 0x1FF))
        OR push_bit 0 (ucast PLL_Division)) OR push_bit 6 PLL_Multiplexer"

text \<open>Lines 122--134: the code stored in the PLLP field by each \<^verbatim>\<open>case\<close> of the switch.\<close>

definition PLLP_code :: "u8 \<Rightarrow> u32" where
  "PLLP_code PLL_Division =
     (if PLL_Division = 2 then 0 else if PLL_Division = 4 then 1
      else if PLL_Division = 6 then 2 else 3)"

definition pllcfgr_p :: "u32 \<Rightarrow> u32 \<Rightarrow> u32" where
  "pllcfgr_p code w = (w AND NOT (push_bit 16 3)) OR push_bit 16 code"

text \<open>Lines 49--52: the selector field of the clock configuration register.\<close>

definition cfgr_select :: "u32 \<Rightarrow> u32 \<Rightarrow> u32" where
  "cfgr_select SYSClkType w = (w AND NOT (push_bit 0 3)) OR push_bit 0 SYSClkType"

section \<open>Simulated hardware and register contents for the examples\<close>

text \<open>All registers zero.\<close>

definition rcc_zero :: rcc where
  "rcc_zero = \<lparr>CR = 0, PLLCFGR = 0, CFGR = 0, CIR = 0, AHB1RSTR = 0, AHB2RSTR = 0,
     AHB3RSTR = 0, APB1RSTR = 0, APB2RSTR = 0, AHB1ENR = 0, AHB2ENR = 0, AHB3ENR = 0,
     APB1ENR = 0, APB2ENR = 0, AHB1LPENR = 0, AHB2LPENR = 0, AHB3LPENR = 0, APB1LPENR = 0,
     APB2LPENR = 0, BDCR = 0, CSR = 0, SSCGR = 0, PLLI2SCFGR = 0, PLLSAICFGR = 0,
     DCKCFGR = 0, CKGATENR = 0, DCKCFGR2 = 0\<rparr>"

text \<open>
  A clock hardware that answers within one step: the ready bits 1, 17 and 25 of the
  control register take the value of the enable bits 0, 16 and 24. Nothing else changes.
\<close>

definition follow :: "nat \<Rightarrow> u32 \<Rightarrow> u32" where
  "follow c w = (if bit w c then w OR push_bit (c + 1) 1 else w AND NOT (push_bit (c + 1) 1))"

definition hw_ready :: hardware where
  "hw_ready s = s\<lparr>CR := follow 24 (follow 16 (follow 0 (CR s)))\<rparr>"

text \<open>
  A clock switch that answers within one step: the confirmation field (bits 3:2) of the
  clock configuration register takes the value of the selector field (bits 1:0). Nothing
  else changes.
\<close>

definition hw_switch :: hardware where
  "hw_switch s = s\<lparr>CFGR := (CFGR s AND NOT 0xC) OR push_bit 2 (CFGR s AND 3)\<rparr>"

text \<open>A hardware that never changes a register.\<close>

definition hw_stuck :: hardware where
  "hw_stuck s = s"

section \<open>Facts about busy-wait loops\<close>

lemma poll_done: "\<not> waiting s \<Longrightarrow> poll hw waiting s = Some s"
  by (subst poll.simps) simp

lemma poll_step: "waiting s \<Longrightarrow> poll hw waiting s = poll hw waiting (hw s)"
  by (subst poll.simps) simp

text \<open>A loop that ends has read the registers after some number \<open>k\<close> of hardware steps,
  and \<open>k\<close> is the first number of steps after which the condition is false.\<close>

lemma poll_Some_iterate:
  assumes "poll hw waiting s = Some s'"
  shows "\<exists>k. s' = (hw ^^ k) s \<and> \<not> waiting s' \<and> (\<forall>j<k. waiting ((hw ^^ j) s))"
  using assms
proof (induction rule: poll.raw_induct[rotated 1, consumes 1])
  case (1 poll' hw waiting s s')
  show ?case
  proof (cases "waiting s")
    case False
    with 1(2) have "s' = s" by simp
    with False show ?thesis by (intro exI[of _ 0]) simp
  next
    case True
    with 1(2) have "poll' hw waiting (hw s) = Some s'" by simp
    from 1(1)[OF this] obtain k where k: "s' = (hw ^^ k) (hw s)" "\<not> waiting s'"
      "\<forall>j<k. waiting ((hw ^^ j) (hw s))" by blast
    have "\<forall>j<Suc k. waiting ((hw ^^ j) s)"
    proof (intro allI impI)
      fix j assume "j < Suc k"
      show "waiting ((hw ^^ j) s)"
      proof (cases j)
        case 0 with True show ?thesis by simp
      next
        case (Suc i)
        with \<open>j < Suc k\<close> k(3) show ?thesis by (simp add: funpow_swap1)
      qed
    qed
    with k show ?thesis by (intro exI[of _ "Suc k"]) (simp add: funpow_swap1)
  qed
qed

lemma poll_reaches:
  "\<not> waiting ((hw ^^ k) s) \<Longrightarrow> \<exists>s'. poll hw waiting s = Some s'"
proof (induction k arbitrary: s)
  case 0
  then show ?case by (simp add: poll_done)
next
  case (Suc k)
  show ?case
  proof (cases "waiting s")
    case False then show ?thesis by (simp add: poll_done)
  next
    case True
    from Suc.prems have "\<not> waiting ((hw ^^ k) (hw s))" by (simp add: funpow_swap1)
    from Suc.IH[OF this] True show ?thesis by (simp add: poll_step)
  qed
qed

lemma poll_not_waiting: "poll hw waiting s = Some s' \<Longrightarrow> \<not> waiting s'"
  using poll_Some_iterate by blast

lemma poll_None:
  assumes "\<And>k. waiting ((hw ^^ k) s)"
  shows "poll hw waiting s = None"
proof (cases "poll hw waiting s")
  case None then show ?thesis .
next
  case (Some s')
  from poll_Some_iterate[OF Some] assms show ?thesis by blast
qed

lemma funpow_preserved:
  assumes "\<And>t. f (hw t) = f t"
  shows "f ((hw ^^ k) s) = f s"
  by (induction k) (simp_all add: assms)

lemma poll_preserves:
  assumes "poll hw waiting s = Some s'" and "preserves hw f"
  shows "f s' = f s"
proof -
  from poll_Some_iterate[OF assms(1)] obtain k where "s' = (hw ^^ k) s" by blast
  moreover from assms(2) have "\<And>t. f (hw t) = f t" by (simp add: preserves_def)
  ultimately show ?thesis by (simp add: funpow_preserved[where f=f])
qed

text \<open>A loop never ends when its condition holds on an invariant of the hardware.\<close>

lemma poll_stuck:
  assumes "I s" and "\<And>t. I t \<Longrightarrow> I (hw t)" and "\<And>t. I t \<Longrightarrow> waiting t"
  shows "poll hw waiting s = None"
proof (rule poll_None)
  fix k
  have "I ((hw ^^ k) s)"
    by (induction k) (simp_all add: assms(1,2))
  then show "waiting ((hw ^^ k) s)" by (rule assms(3))
qed

lemma poll_responds:
  assumes "responds hw P Q" and "P s" and "\<And>t. Q t \<Longrightarrow> \<not> waiting t"
  shows "\<exists>s'. poll hw waiting s = Some s'"
proof -
  from assms(1,2) obtain k where "Q ((hw ^^ k) s)" by (auto simp add: responds_def)
  then have "\<not> waiting ((hw ^^ k) s)" by (rule assms(3))
  then show ?thesis by (rule poll_reaches)
qed

lemma test_bit_eq: "(drop_bit n (w::u32) AND 1 = 0) \<longleftrightarrow> \<not> bit w n"
  by (simp add: and_one_eq bit_iff_odd_drop_bit even_iff_mod_2_eq_zero)

section \<open>Bit-level facts about the register writes\<close>

lemma bit_set_u32:
  "n \<le> 31 \<Longrightarrow> bit ((w::u32) OR 2 ^ n) m \<longleftrightarrow> m = n \<or> bit w m"
  by (auto simp add: bit_simps dest: bit_imp_le_length)

lemma bit_clear_u32:
  "n \<le> 31 \<Longrightarrow> bit ((w::u32) AND NOT (2 ^ n)) m \<longleftrightarrow> m \<noteq> n \<and> bit w m"
  by (auto simp add: bit_simps dest: bit_imp_le_length)

lemma or_bit_already_set: "bit (w::u32) n \<Longrightarrow> w OR 2 ^ n = w"
  by (rule bit_eqI) (auto simp add: bit_simps)

lemmas bit_set_18 = bit_set_u32 [of 18, simplified]
lemmas bit_clear_18 = bit_clear_u32 [of 18, simplified]

section \<open>Peripheral bus clock gating: one bit, one register\<close>

lemma AHB1_enable_one_bit:
  "n \<le> 31 \<Longrightarrow>
     \<exists>s'. RCC_AHB1_EnableClk n s = (0, s') \<and> s'\<lparr>AHB1ENR := AHB1ENR s\<rparr> = s \<and>
          (\<forall>m. bit (AHB1ENR s') m \<longleftrightarrow> m = n \<or> bit (AHB1ENR s) m)"
  by (simp add: RCC_AHB1_EnableClk_def bit_set_u32)

lemma AHB1_disable_one_bit:
  "n \<le> 31 \<Longrightarrow>
     \<exists>s'. RCC_AHB1_DisableClk n s = (0, s') \<and> s'\<lparr>AHB1ENR := AHB1ENR s\<rparr> = s \<and>
          (\<forall>m. bit (AHB1ENR s') m \<longleftrightarrow> m \<noteq> n \<and> bit (AHB1ENR s) m)"
  by (simp add: RCC_AHB1_DisableClk_def bit_clear_u32)

lemma AHB2_enable_one_bit:
  "n \<le> 31 \<Longrightarrow>
     \<exists>s'. RCC_AHB2_EnableClk n s = (0, s') \<and> s'\<lparr>AHB2ENR := AHB2ENR s\<rparr> = s \<and>
          (\<forall>m. bit (AHB2ENR s') m \<longleftrightarrow> m = n \<or> bit (AHB2ENR s) m)"
  by (simp add: RCC_AHB2_EnableClk_def bit_set_u32)

lemma AHB2_disable_one_bit:
  "n \<le> 31 \<Longrightarrow>
     \<exists>s'. RCC_AHB2_DisableClk n s = (0, s') \<and> s'\<lparr>AHB2ENR := AHB2ENR s\<rparr> = s \<and>
          (\<forall>m. bit (AHB2ENR s') m \<longleftrightarrow> m \<noteq> n \<and> bit (AHB2ENR s) m)"
  by (simp add: RCC_AHB2_DisableClk_def bit_clear_u32)

lemma AHB3_enable_one_bit:
  "n \<le> 31 \<Longrightarrow>
     \<exists>s'. RCC_AHB3_EnableClk n s = (0, s') \<and> s'\<lparr>AHB3ENR := AHB3ENR s\<rparr> = s \<and>
          (\<forall>m. bit (AHB3ENR s') m \<longleftrightarrow> m = n \<or> bit (AHB3ENR s) m)"
  by (simp add: RCC_AHB3_EnableClk_def bit_set_u32)

lemma AHB3_disable_one_bit:
  "n \<le> 31 \<Longrightarrow>
     \<exists>s'. RCC_AHB3_DisableClk n s = (0, s') \<and> s'\<lparr>AHB3ENR := AHB3ENR s\<rparr> = s \<and>
          (\<forall>m. bit (AHB3ENR s') m \<longleftrightarrow> m \<noteq> n \<and> bit (AHB3ENR s) m)"
  by (simp add: RCC_AHB3_DisableClk_def bit_clear_u32)

lemma APB1_enable_one_bit:
  "n \<le> 31 \<Longrightarrow>
     \<exists>s'. RCC_APB1_EnableClk n s = (0, s') \<and> s'\<lparr>APB1ENR := APB1ENR s\<rparr> = s \<and>
          (\<forall>m. bit (APB1ENR s') m \<longleftrightarrow> m = n \<or> bit (APB1ENR s) m)"
  by (simp add: RCC_APB1_EnableClk_def bit_set_u32)

lemma APB1_disable_one_bit:
  "n \<le> 31 \<Longrightarrow>
     \<exists>s'. RCC_APB1_DisableClk n s = (0, s') \<and> s'\<lparr>APB1ENR := APB1ENR s\<rparr> = s \<and>
          (\<forall>m. bit (APB1ENR s') m \<longleftrightarrow> m \<noteq> n \<and> bit (APB1ENR s) m)"
  by (simp add: RCC_APB1_DisableClk_def bit_clear_u32)

lemma APB2_enable_one_bit:
  "n \<le> 31 \<Longrightarrow>
     \<exists>s'. RCC_APB2_EnableClk n s = (0, s') \<and> s'\<lparr>APB2ENR := APB2ENR s\<rparr> = s \<and>
          (\<forall>m. bit (APB2ENR s') m \<longleftrightarrow> m = n \<or> bit (APB2ENR s) m)"
  by (simp add: RCC_APB2_EnableClk_def bit_set_u32)

lemma APB2_disable_one_bit:
  "n \<le> 31 \<Longrightarrow>
     \<exists>s'. RCC_APB2_DisableClk n s = (0, s') \<and> s'\<lparr>APB2ENR := APB2ENR s\<rparr> = s \<and>
          (\<forall>m. bit (APB2ENR s') m \<longleftrightarrow> m \<noteq> n \<and> bit (APB2ENR s) m)"
  by (simp add: RCC_APB2_DisableClk_def bit_clear_u32)

lemma gating_rejected:
  "n > 31 \<Longrightarrow>
     RCC_AHB1_EnableClk n s = (1, s) \<and> RCC_AHB1_DisableClk n s = (1, s) \<and>
     RCC_AHB2_EnableClk n s = (1, s) \<and> RCC_AHB2_DisableClk n s = (1, s) \<and>
     RCC_AHB3_EnableClk n s = (1, s) \<and> RCC_AHB3_DisableClk n s = (1, s) \<and>
     RCC_APB1_EnableClk n s = (1, s) \<and> RCC_APB1_DisableClk n s = (1, s) \<and>
     RCC_APB2_EnableClk n s = (1, s) \<and> RCC_APB2_DisableClk n s = (1, s)"
  by (simp add: RCC_AHB1_EnableClk_def RCC_AHB1_DisableClk_def RCC_AHB2_EnableClk_def
      RCC_AHB2_DisableClk_def RCC_AHB3_EnableClk_def RCC_AHB3_DisableClk_def
      RCC_APB1_EnableClk_def RCC_APB1_DisableClk_def RCC_APB2_EnableClk_def
      RCC_APB2_DisableClk_def)

lemma gating_accepted:
  "n \<le> 31 \<Longrightarrow>
      (\<exists>s'. RCC_AHB1_EnableClk n s = (0, s') \<and> s'\<lparr>AHB1ENR := AHB1ENR s\<rparr> = s \<and>
            (\<forall>m. bit (AHB1ENR s') m \<longleftrightarrow> m = n \<or> bit (AHB1ENR s) m)) \<and>
      (\<exists>s'. RCC_AHB1_DisableClk n s = (0, s') \<and> s'\<lparr>AHB1ENR := AHB1ENR s\<rparr> = s \<and>
            (\<forall>m. bit (AHB1ENR s') m \<longleftrightarrow> m \<noteq> n \<and> bit (AHB1ENR s) m)) \<and>
      (\<exists>s'. RCC_AHB2_EnableClk n s = (0, s') \<and> s'\<lparr>AHB2ENR := AHB2ENR s\<rparr> = s \<and>
            (\<forall>m. bit (AHB2ENR s') m \<longleftrightarrow> m = n \<or> bit (AHB2ENR s) m)) \<and>
      (\<exists>s'. RCC_AHB2_DisableClk n s = (0, s') \<and> s'\<lparr>AHB2ENR := AHB2ENR s\<rparr> = s \<and>
            (\<forall>m. bit (AHB2ENR s') m \<longleftrightarrow> m \<noteq> n \<and> bit (AHB2ENR s) m)) \<and>
      (\<exists>s'. RCC_AHB3_EnableClk n s = (0, s') \<and> s'\<lparr>AHB3ENR := AHB3ENR s\<rparr> = s \<and>
            (\<forall>m. bit (AHB3ENR s') m \<longleftrightarrow> m = n \<or> bit (AHB3ENR s) m)) \<and>
      (\<exists>s'. RCC_AHB3_DisableClk n s = (0, s') \<and> s'\<lparr>AHB3ENR := AHB3ENR s\<rparr> = s \<and>
            (\<forall>m. bit (AHB3ENR s') m \<longleftrightarrow> m \<noteq> n \<and> bit (AHB3ENR s) m)) \<and>
      (\<exists>s'. RCC_APB1_EnableClk n s = (0, s') \<and> s'\<lparr>APB1ENR := APB1ENR s\<rparr> = s \<and>
            (\<forall>m. bit (APB1ENR s') m \<longleftrightarrow> m = n \<or> bit (APB1ENR s) m)) \<and>
      (\<exists>s'. RCC_APB1_DisableClk n s = (0, s') \<and> s'\<lparr>APB1ENR := APB1ENR s\<rparr> = s \<and>
            (\<forall>m. bit (APB1ENR s') m \<longleftrightarrow> m \<noteq> n \<and> bit (APB1ENR s) m)) \<and>
      (\<exists>s'. RCC_APB2_EnableClk n s = (0, s') \<and> s'\<lparr>APB2ENR := APB2ENR s\<rparr> = s \<and>
            (\<forall>m. bit (APB2ENR s') m \<longleftrightarrow> m = n \<or> bit (APB2ENR s) m)) \<and>
      (\<exists>s'. RCC_APB2_DisableClk n s = (0, s') \<and> s'\<lparr>APB2ENR := APB2ENR s\<rparr> = s \<and>
            (\<forall>m. bit (APB2ENR s') m \<longleftrightarrow> m \<noteq> n \<and> bit (APB2ENR s) m))"
  by (intro conjI AHB1_enable_one_bit AHB1_disable_one_bit AHB2_enable_one_bit
      AHB2_disable_one_bit AHB3_enable_one_bit AHB3_disable_one_bit APB1_enable_one_bit
      APB1_disable_one_bit APB2_enable_one_bit APB2_disable_one_bit)

text \<open>
  Claim C6. For each bus domain (AHB1, AHB2, AHB3, APB1, APB2) and every peripheral bit
  position 0 to 31, the enable function returns 0 and sets exactly that bit of the
  domain's enable register, the disable function returns 0 and clears exactly that bit;
  the other 31 bits and every other register keep their values. For every position
  greater than 31 each function returns 1 and leaves the registers as they were.
\<close>

theorem gating_touches_one_bit:
  "(PeripheralName \<le> 31 \<longrightarrow>
      (\<exists>s'. RCC_AHB1_EnableClk PeripheralName s = (0, s') \<and> s'\<lparr>AHB1ENR := AHB1ENR s\<rparr> = s \<and>
            (\<forall>m. bit (AHB1ENR s') m \<longleftrightarrow> m = PeripheralName \<or> bit (AHB1ENR s) m)) \<and>
      (\<exists>s'. RCC_AHB1_DisableClk PeripheralName s = (0, s') \<and> s'\<lparr>AHB1ENR := AHB1ENR s\<rparr> = s \<and>
            (\<forall>m. bit (AHB1ENR s') m \<longleftrightarrow> m \<noteq> PeripheralName \<and> bit (AHB1ENR s) m)) \<and>
      (\<exists>s'. RCC_AHB2_EnableClk PeripheralName s = (0, s') \<and> s'\<lparr>AHB2ENR := AHB2ENR s\<rparr> = s \<and>
            (\<forall>m. bit (AHB2ENR s') m \<longleftrightarrow> m = PeripheralName \<or> bit (AHB2ENR s) m)) \<and>
      (\<exists>s'. RCC_AHB2_DisableClk PeripheralName s = (0, s') \<and> s'\<lparr>AHB2ENR := AHB2ENR s\<rparr> = s \<and>
            (\<forall>m. bit (AHB2ENR s') m \<longleftrightarrow> m \<noteq> PeripheralName \<and> bit (AHB2ENR s) m)) \<and>
      (\<exists>s'. RCC_AHB3_EnableClk PeripheralName s = (0, s') \<and> s'\<lparr>AHB3ENR := AHB3ENR s\<rparr> = s \<and>
            (\<forall>m. bit (AHB3ENR s') m \<longleftrightarrow> m = PeripheralName \<or> bit (AHB3ENR s) m)) \<and>
      (\<exists>s'. RCC_AHB3_DisableClk PeripheralName s = (0, s') \<and> s'\<lparr>AHB3ENR := AHB3ENR s\<rparr> = s \<and>
            (\<forall>m. bit (AHB3ENR s') m \<longleftrightarrow> m \<noteq> PeripheralName \<and> bit (AHB3ENR s) m)) \<and>
      (\<exists>s'. RCC_APB1_EnableClk PeripheralName s = (0, s') \<and> s'\<lparr>APB1ENR := APB1ENR s\<rparr> = s \<and>
            (\<forall>m. bit (APB1ENR s') m \<longleftrightarrow> m = PeripheralName \<or> bit (APB1ENR s) m)) \<and>
      (\<exists>s'. RCC_APB1_DisableClk PeripheralName s = (0, s') \<and> s'\<lparr>APB1ENR := APB1ENR s\<rparr> = s \<and>
            (\<forall>m. bit (APB1ENR s') m \<longleftrightarrow> m \<noteq> PeripheralName \<and> bit (APB1ENR s) m)) \<and>
      (\<exists>s'. RCC_APB2_EnableClk PeripheralName s = (0, s') \<and> s'\<lparr>APB2ENR := APB2ENR s\<rparr> = s \<and>
            (\<forall>m. bit (APB2ENR s') m \<longleftrightarrow> m = PeripheralName \<or> bit (APB2ENR s) m)) \<and>
      (\<exists>s'. RCC_APB2_DisableClk PeripheralName s = (0, s') \<and> s'\<lparr>APB2ENR := APB2ENR s\<rparr> = s \<and>
            (\<forall>m. bit (APB2ENR s') m \<longleftrightarrow> m \<noteq> PeripheralName \<and> bit (APB2ENR s) m))) \<and>
   (PeripheralName > 31 \<longrightarrow>
      RCC_AHB1_EnableClk PeripheralName s = (1, s) \<and> RCC_AHB1_DisableClk PeripheralName s = (1, s) \<and>
      RCC_AHB2_EnableClk PeripheralName s = (1, s) \<and> RCC_AHB2_DisableClk PeripheralName s = (1, s) \<and>
      RCC_AHB3_EnableClk PeripheralName s = (1, s) \<and> RCC_AHB3_DisableClk PeripheralName s = (1, s) \<and>
      RCC_APB1_EnableClk PeripheralName s = (1, s) \<and> RCC_APB1_DisableClk PeripheralName s = (1, s) \<and>
      RCC_APB2_EnableClk PeripheralName s = (1, s) \<and> RCC_APB2_DisableClk PeripheralName s = (1, s))"
  by (rule conjI; rule impI) (erule gating_accepted, erule gating_rejected)

theorem gating_touches_one_bit_witness:
  "(\<exists>s'. RCC_AHB1_EnableClk 3 (rcc_zero\<lparr>AHB1ENR := 16\<rparr>) = (0, s') \<and>
         bit (AHB1ENR s') 3 \<and> bit (AHB1ENR s') 4 \<and> \<not> bit (AHB1ENR s') 5) \<and>
   RCC_APB2_DisableClk 32 (rcc_zero\<lparr>APB2ENR := 16\<rparr>) = (1, rcc_zero\<lparr>APB2ENR := 16\<rparr>)"
proof -
  have le: "(3::nat) \<le> 31" and gt: "(32::nat) > 31" by simp_all
  note en = gating_touches_one_bit [of 3 "rcc_zero\<lparr>AHB1ENR := 16\<rparr>", THEN conjunct1,
      rule_format, OF le, THEN conjunct1]
  note rej = gating_touches_one_bit [of 32 "rcc_zero\<lparr>APB2ENR := 16\<rparr>", THEN conjunct2,
      rule_format, OF gt]
  from en obtain s1 where s1: "RCC_AHB1_EnableClk 3 (rcc_zero\<lparr>AHB1ENR := 16\<rparr>) = (0, s1)"
    and bits: "\<And>m. bit (AHB1ENR s1) m \<longleftrightarrow> m = 3 \<or> bit (AHB1ENR (rcc_zero\<lparr>AHB1ENR := 16\<rparr>)) m"
    by blast
  have "bit (AHB1ENR s1) 3 \<and> bit (AHB1ENR s1) 4 \<and> \<not> bit (AHB1ENR s1) 5"
    by (simp add: bits rcc_zero_def)
  with s1 rej show ?thesis by simp
qed

section \<open>Facts about words and fields\<close>

lemma mask2_numeral: "(3::u32) = mask 2"
  by (simp add: mask_eq_exp_minus_1)

lemma mask6_numeral: "(0x3F::u32) = mask 6"
  by (simp add: mask_eq_exp_minus_1)

lemma mask9_numeral: "(0x1FF::u32) = mask 9"
  by (simp add: mask_eq_exp_minus_1)

lemma bit_below:
  fixes x :: "'a::len word"
  assumes "x < 2 ^ k" and "bit x n"
  shows "n < k"
proof -
  from assms(1) have "x AND mask k = x" by (rule less_mask_eq)
  with assms(2) have "bit (x AND mask k) n" by simp
  then show ?thesis by (simp add: bit_simps)
qed

lemma bit_le3: "(v::u32) \<le> 3 \<Longrightarrow> bit v n \<Longrightarrow> n < 2"
  by (rule bit_below[of v 2]) (simp_all add: word_less_nat_alt word_le_nat_alt)

lemma bit_le63: "(M::u8) \<le> 63 \<Longrightarrow> bit M n \<Longrightarrow> n < 6"
  by (rule bit_below[of M 6]) (simp_all add: word_less_nat_alt word_le_nat_alt)

lemma bit_le432: "(N::u32) \<le> 432 \<Longrightarrow> bit N n \<Longrightarrow> n < 9"
  by (rule bit_below[of N 9]) (simp_all add: word_less_nat_alt word_le_nat_alt)

lemma bit_set_bit_u32: "bit (set_bit c (w::u32)) n \<longleftrightarrow> bit w n \<or> (n = c \<and> c < 32)"
  by (auto simp add: bit_simps)

lemma bit_unset_bit_u32: "bit (unset_bit c (w::u32)) n \<longleftrightarrow> bit w n \<and> n \<noteq> c"
  by (auto simp add: bit_simps)

lemma bit_cfgr_select:
  assumes "v \<le> 3"
  shows "bit (cfgr_select v w) n \<longleftrightarrow> (if n < 2 then bit v n else bit w n)"
  unfolding cfgr_select_def
  using bit_le3[OF assms, of n]
  by (auto simp add: mask2_numeral bit_simps simp del: push_bit_of_1 dest: bit_imp_le_length)

lemma cfgr_select_field:
  assumes "v \<le> 3"
  shows "cfgr_select v w AND 3 = v"
proof (rule bit_eqI)
  fix n
  from bit_le3[OF assms, of n]
  show "bit (cfgr_select v w AND 3) n = bit v n"
    by (auto simp add: bit_cfgr_select[OF assms] mask2_numeral bit_simps)
qed

lemma bit_pllcfgr_source:
  "bit (pllcfgr_source Src w) n \<longleftrightarrow> (if n = 22 then Src \<noteq> HSI else bit w n)"
  unfolding pllcfgr_source_def
  by (auto simp add: bit_simps simp del: push_bit_of_1 dest: bit_imp_le_length)

lemma bit_pllcfgr_mn:
  assumes "M \<le> 63" and "N \<le> 432"
  shows "bit (pllcfgr_mn M N w) n \<longleftrightarrow>
           (if n < 6 then bit M n else if n < 15 then bit N (n - 6) else bit w n)"
  unfolding pllcfgr_mn_def
  using bit_le63[OF assms(1), of n] bit_le432[OF assms(2), of "n - 6"]
  by (auto simp add: mask6_numeral mask9_numeral bit_simps simp del: push_bit_of_1
      dest: bit_imp_le_length)

lemma bit_pllcfgr_p:
  assumes "c \<le> 3"
  shows "bit (pllcfgr_p c w) n \<longleftrightarrow> (if 16 \<le> n \<and> n < 18 then bit c (n - 16) else bit w n)"
  unfolding pllcfgr_p_def
  using bit_le3[OF assms, of "n - 16"]
  by (auto simp add: mask2_numeral bit_simps simp del: push_bit_of_1 dest: bit_imp_le_length)

lemma PLLP_code_le3: "PLLP_code M \<le> 3"
  by (simp add: PLLP_code_def)

lemma field_M:
  assumes "\<And>n. n < 6 \<Longrightarrow> bit (w::u32) n = bit (M::u8) n" and "M \<le> 63"
  shows "w AND 0x3F = ucast M"
proof (rule bit_eqI)
  fix n
  from bit_le63[OF assms(2), of n] assms(1)[of n]
  show "bit (w AND 0x3F) n = bit (ucast M :: u32) n"
    by (auto simp add: mask6_numeral bit_simps dest: bit_imp_le_length)
qed

lemma field_N:
  assumes "\<And>n. 6 \<le> n \<Longrightarrow> n < 15 \<Longrightarrow> bit (w::u32) n = bit (N::u32) (n - 6)" and "N \<le> 432"
  shows "drop_bit 6 w AND 0x1FF = N"
proof (rule bit_eqI)
  fix n
  from bit_le432[OF assms(2), of n] assms(1)[of "6 + n"]
  show "bit (drop_bit 6 w AND 0x1FF) n = bit N n"
    by (auto simp add: mask9_numeral bit_simps dest: bit_imp_le_length)
qed

lemma field_P:
  assumes "\<And>n. 16 \<le> n \<Longrightarrow> n < 18 \<Longrightarrow> bit (w::u32) n = bit (c::u32) (n - 16)" and "c \<le> 3"
  shows "drop_bit 16 w AND 3 = c"
proof (rule bit_eqI)
  fix n
  from bit_le3[OF assms(2), of n] assms(1)[of "16 + n"]
  show "bit (drop_bit 16 w AND 3) n = bit c n"
    by (auto simp add: mask2_numeral bit_simps dest: bit_imp_le_length)
qed

section \<open>Facts about the simulated hardware\<close>

lemma bit_follow:
  "c < 31 \<Longrightarrow> bit (follow c w) n \<longleftrightarrow> (if n = c + 1 then bit w c else bit w n)"
  unfolding follow_def
  by (auto simp add: bit_simps simp del: push_bit_of_1 dest: bit_imp_le_length)

lemma hw_ready_CR:
  "bit (CR (hw_ready t)) n \<longleftrightarrow>
     (if n = 1 \<or> n = 17 \<or> n = 25 then bit (CR t) (n - 1) else bit (CR t) n)"
  by (simp add: hw_ready_def bit_follow)

lemma hw_ready_CR_bit:
  "n \<noteq> 1 \<Longrightarrow> n \<noteq> 17 \<Longrightarrow> n \<noteq> 25 \<Longrightarrow> preserves hw_ready (\<lambda>t. bit (CR t) n)"
  by (simp add: preserves_def hw_ready_CR)

lemma hw_ready_PLLCFGR: "preserves hw_ready PLLCFGR"
  by (simp add: preserves_def hw_ready_def)

lemma hw_ready_PLLCFGR_bit: "preserves hw_ready (\<lambda>t. bit (PLLCFGR t) n)"
  by (simp add: preserves_def hw_ready_def)

lemma hw_ready_others: "preserves hw_ready (\<lambda>t. t\<lparr>CR := 0, PLLCFGR := 0\<rparr>)"
  by (simp add: preserves_def hw_ready_def)

lemma hw_ready_follows:
  assumes "c = 0 \<or> c = 16 \<or> c = 24"
  shows "responds hw_ready (\<lambda>t. bit (CR t) c) (\<lambda>t. bit (CR t) (c + 1))"
    and "responds hw_ready (\<lambda>t. \<not> bit (CR t) c) (\<lambda>t. \<not> bit (CR t) (c + 1))"
proof -
  from assms have "bit (CR ((hw_ready ^^ 1) t)) (c + 1) = bit (CR t) c" for t
    by (auto simp add: hw_ready_CR)
  then show "responds hw_ready (\<lambda>t. bit (CR t) c) (\<lambda>t. bit (CR t) (c + 1))"
    and "responds hw_ready (\<lambda>t. \<not> bit (CR t) c) (\<lambda>t. \<not> bit (CR t) (c + 1))"
    unfolding responds_def by blast+
qed

lemma hw_ready_PLL:
  "responds hw_ready (\<lambda>t. bit (CR t) 24) (\<lambda>t. bit (CR t) 25)"
  "responds hw_ready (\<lambda>t. \<not> bit (CR t) 24) (\<lambda>t. \<not> bit (CR t) 25)"
  using hw_ready_follows[of 24] by simp_all

lemma hw_switch_CFGR:
  "bit (CFGR (hw_switch t)) n \<longleftrightarrow>
     (if n = 2 \<or> n = 3 then bit (CFGR t) (n - 2) else bit (CFGR t) n)"
proof -
  have c: "(0xC::u32) = push_bit 2 (mask 2)" by (simp add: mask_eq_exp_minus_1)
  have "n < 4 \<Longrightarrow> n \<noteq> 2 \<Longrightarrow> n \<noteq> 3 \<Longrightarrow> n < 2" by arith
  then show ?thesis
    unfolding hw_switch_def
    by (auto simp add: c mask2_numeral bit_simps simp del: push_bit_of_1 dest: bit_imp_le_length)
qed

lemma hw_switch_CFGR_bit:
  "n \<noteq> 2 \<Longrightarrow> n \<noteq> 3 \<Longrightarrow> preserves hw_switch (\<lambda>t. bit (CFGR t) n)"
  by (simp add: preserves_def hw_switch_CFGR)

lemma hw_switch_confirms:
  "responds hw_switch (\<lambda>t. CFGR t AND 3 = v) (\<lambda>t. drop_bit 2 (CFGR t) AND 3 = v)"
proof -
  have "drop_bit 2 (CFGR (hw_switch t)) AND 3 = CFGR t AND 3" for t
    by (rule bit_eqI) (auto simp add: mask2_numeral bit_simps hw_switch_CFGR)
  then have "CFGR t AND 3 = v \<Longrightarrow> drop_bit 2 (CFGR ((hw_switch ^^ 1) t)) AND 3 = v" for t
    by simp
  then show ?thesis unfolding responds_def by blast
qed

section \<open>The driver functions as waits and writes\<close>

lemma SetClkStatus_eq:
  "RCC_SetClkStatus hw c st s =
     (case poll hw (\<lambda>t. \<not> bit (CR t) (c + 1))
             (s\<lparr>CR := (if st = ON then set_bit c (CR s) else unset_bit c (CR s))\<rparr>) of
        None \<Rightarrow> None
      | Some s2 \<Rightarrow> Some (0, s2))"
proof -
  have w: "(\<lambda>t. drop_bit (c + 1) (CR t) AND 1 = 0) = (\<lambda>t. \<not> bit (CR t) (c + 1))"
    by (simp only: test_bit_eq)
  show ?thesis
    unfolding RCC_SetClkStatus_def w Let_def
    by (simp add: set_bit_eq_or unset_bit_eq_and_not split: option.splits)
qed

lemma SetSysClk_eq:
  assumes "v \<le> 3"
  shows "RCC_SetSysClk hw v s =
     (case poll hw (\<lambda>t. drop_bit 2 (CFGR t) AND 3 \<noteq> v) (s\<lparr>CFGR := cfgr_select v (CFGR s)\<rparr>) of
        None \<Rightarrow> None
      | Some s3 \<Rightarrow> Some (0, s3))"
proof -
  from assms have "\<not> v > SYSPLLP" by (simp add: SYSPLLP_def)
  then show ?thesis
    unfolding RCC_SetSysClk_def Let_def
    by (simp add: cfgr_select_def split: option.splits)
qed

lemma PLLP_switch_eq:
  "PLLP_switch M s =
     (if M = 2 \<or> M = 4 \<or> M = 6 \<or> M = 8
      then Some (s\<lparr>PLLCFGR := pllcfgr_p (PLLP_code M) (PLLCFGR s)\<rparr>) else None)"
  by (simp add: PLLP_switch_def pllcfgr_p_def PLLP_code_def)

lemma PLL_source_eq:
  "PLL_source Src s =
     (if Src \<noteq> HSI \<and> Src \<noteq> HSE then None
      else Some (s\<lparr>PLLCFGR := pllcfgr_source Src (PLLCFGR s)\<rparr>))"
  by (simp add: PLL_source_def pllcfgr_source_def)

lemma PLL_Config_eq:
  "RCC_PLL_Config hw N M Src s =
     (case poll hw (\<lambda>t. bit (CR t) 25) (s\<lparr>CR := unset_bit 24 (CR s)\<rparr>) of
        None \<Rightarrow> None
      | Some s1 \<Rightarrow>
          if Src \<noteq> HSI \<and> Src \<noteq> HSE then Some (1, s1)
          else if N < 50 \<or> 432 < N \<or> M < 2 \<or> 63 < M
            then Some (1, s1\<lparr>PLLCFGR := pllcfgr_source Src (PLLCFGR s1)\<rparr>)
          else if \<not> (M = 2 \<or> M = 4 \<or> M = 6 \<or> M = 8)
            then Some (1, s1\<lparr>PLLCFGR := pllcfgr_mn M N (pllcfgr_source Src (PLLCFGR s1))\<rparr>)
          else
            (case poll hw (\<lambda>t. \<not> bit (CR t) 25)
                    (s1\<lparr>PLLCFGR := pllcfgr_p (PLLP_code M)
                                      (pllcfgr_mn M N (pllcfgr_source Src (PLLCFGR s1))),
                        CR := set_bit 24 (CR s1)\<rparr>) of
               None \<Rightarrow> None
             | Some s8 \<Rightarrow> Some (0, s8)))"
proof -
  have w1: "(\<lambda>t. drop_bit 25 (CR t) AND 1 \<noteq> 0) = (\<lambda>t. bit (CR t) 25)"
    by (simp add: test_bit_eq)
  have w2: "(\<lambda>t. \<not> (drop_bit 25 (CR t) AND 1 \<noteq> 0)) = (\<lambda>t. \<not> bit (CR t) 25)"
    by (simp add: test_bit_eq)
  have c: "CR s AND NOT (push_bit 24 1) = unset_bit 24 (CR s)"
    by (simp add: unset_bit_eq_and_not)
  have e: "\<And>w::u32. w OR push_bit 24 1 = set_bit 24 w"
    by (simp add: set_bit_eq_or)
  show ?thesis
    unfolding RCC_PLL_Config_def w1 w2 c e Let_def PLLP_switch_eq PLL_source_eq
    by (cases "poll hw (\<lambda>t. bit (CR t) 25) (s\<lparr>CR := unset_bit 24 (CR s)\<rparr>)")
       (auto simp add: pllcfgr_mn_def split: option.splits)
qed

section \<open>System clock selection\<close>

lemma SetSysClk_rejected: "v > 3 \<Longrightarrow> RCC_SetSysClk hw v s = Some (1, s)"
  by (simp add: RCC_SetSysClk_def SYSPLLP_def)

lemma SetSysClk_partial:
  assumes "v \<le> 3" and "RCC_SetSysClk hw v s = Some (r, s')"
  shows "r = 0" and "drop_bit 2 (CFGR s') AND 3 = v"
    and "preserves hw (\<lambda>t. bit (CFGR t) n) \<Longrightarrow>
           bit (CFGR s') n = (if n < 2 then bit v n else bit (CFGR s) n)"
proof -
  from assms obtain s3 where
    p: "poll hw (\<lambda>t. drop_bit 2 (CFGR t) AND 3 \<noteq> v) (s\<lparr>CFGR := cfgr_select v (CFGR s)\<rparr>) = Some s3"
    and r: "r = 0" "s' = s3"
    by (auto simp add: SetSysClk_eq split: option.splits)
  show "r = 0" by (rule r)
  from poll_not_waiting[OF p] r show "drop_bit 2 (CFGR s') AND 3 = v" by simp
  assume "preserves hw (\<lambda>t. bit (CFGR t) n)"
  from poll_preserves[OF p this] r
  show "bit (CFGR s') n = (if n < 2 then bit v n else bit (CFGR s) n)"
    by (simp add: bit_cfgr_select[OF assms(1)])
qed

lemma SetSysClk_total:
  assumes "v \<le> 3"
    and "responds hw (\<lambda>t. CFGR t AND 3 = v) (\<lambda>t. drop_bit 2 (CFGR t) AND 3 = v)"
  shows "\<exists>s'. RCC_SetSysClk hw v s = Some (0, s')"
proof -
  have "\<exists>s3. poll hw (\<lambda>t. drop_bit 2 (CFGR t) AND 3 \<noteq> v)
               (s\<lparr>CFGR := cfgr_select v (CFGR s)\<rparr>) = Some s3"
    by (rule poll_responds[OF assms(2)]) (simp_all add: cfgr_select_field[OF assms(1)])
  then show ?thesis by (auto simp add: SetSysClk_eq[OF assms(1)])
qed

text \<open>
  Claim C5. A requested value greater than 3 makes \<^verbatim>\<open>RCC_SetSysClk\<close> return 1 with
  the registers as they were. For a value from 0 to 3, whenever the call returns it
  returns 0, the confirmation field (bits 3:2 of CFGR) equals the value, and every bit of
  CFGR that the hardware does not drive holds the value's bit (bits 1:0) or its prior
  value (any other bit); and the call does return once the hardware, given the selector
  field, confirms it after finitely many polls.
\<close>

theorem SetSysClk_selects:
  "(SYSClkType > 3 \<longrightarrow> RCC_SetSysClk hw SYSClkType s = Some (1, s)) \<and>
   (SYSClkType \<le> 3 \<longrightarrow>
      (\<forall>r s'. RCC_SetSysClk hw SYSClkType s = Some (r, s') \<longrightarrow>
         r = 0 \<and> drop_bit 2 (CFGR s') AND 3 = SYSClkType \<and>
         (\<forall>n. preserves hw (\<lambda>t. bit (CFGR t) n) \<longrightarrow>
            bit (CFGR s') n = (if n < 2 then bit SYSClkType n else bit (CFGR s) n))) \<and>
      (responds hw (\<lambda>t. CFGR t AND 3 = SYSClkType)
                   (\<lambda>t. drop_bit 2 (CFGR t) AND 3 = SYSClkType) \<longrightarrow>
         (\<exists>s'. RCC_SetSysClk hw SYSClkType s = Some (0, s'))))"
  using SetSysClk_rejected[of SYSClkType hw s] SetSysClk_partial[of SYSClkType hw s]
    SetSysClk_total[of SYSClkType hw s]
  by blast

theorem SetSysClk_selects_witness:
  "(\<exists>s'. RCC_SetSysClk hw_switch 2 (rcc_zero\<lparr>CFGR := 0xF5\<rparr>) = Some (0, s') \<and>
         drop_bit 2 (CFGR s') AND 3 = 2 \<and>
         \<not> bit (CFGR s') 0 \<and> bit (CFGR s') 1 \<and> bit (CFGR s') 4 \<and> \<not> bit (CFGR s') 8) \<and>
   RCC_SetSysClk hw_switch 4 (rcc_zero\<lparr>CFGR := 0xF5\<rparr>) = Some (1, rcc_zero\<lparr>CFGR := 0xF5\<rparr>)"
proof -
  let ?s = "rcc_zero\<lparr>CFGR := 0xF5\<rparr>"
  have le: "(2::u32) \<le> 3" and gt: "(4::u32) > 3" by simp_all
  note acc = SetSysClk_selects [of 2 hw_switch ?s, THEN conjunct2, rule_format, OF le]
  note rej = SetSysClk_selects [of 4 hw_switch ?s, THEN conjunct1, rule_format, OF gt]
  from acc[THEN conjunct2, rule_format, OF hw_switch_confirms]
  obtain s' where s': "RCC_SetSysClk hw_switch 2 ?s = Some (0, s')" by blast
  note post = acc[THEN conjunct1, rule_format, OF s']
  have b: "bit (CFGR s') n = (if n < 2 then bit (2::u32) n else bit (CFGR ?s) n)"
    if "n \<noteq> 2" "n \<noteq> 3" for n
    using post that by (simp add: hw_switch_CFGR_bit)
  have "\<not> bit (CFGR s') 0 \<and> bit (CFGR s') 1 \<and> bit (CFGR s') 4 \<and> \<not> bit (CFGR s') 8"
    by (simp add: b rcc_zero_def)
  with s' post rej show ?thesis by simp
qed

section \<open>External oscillator bypass\<close>

text \<open>
  Claim C8. \<^verbatim>\<open>RCC_HSE_Mode\<close> returns 0 and sets exactly bit 18 of the control
  register for BYPASSED, returns 0 and clears exactly that bit for NOT_BYPASSED, and for
  any other value returns 1 and leaves the registers as they were.
\<close>

theorem HSE_Mode_bypass_bit:
  "(\<exists>s'. RCC_HSE_Mode BYPASSED s = (0, s') \<and> s'\<lparr>CR := CR s\<rparr> = s \<and>
         (\<forall>m. bit (CR s') m \<longleftrightarrow> m = 18 \<or> bit (CR s) m)) \<and>
   (\<exists>s'. RCC_HSE_Mode NOT_BYPASSED s = (0, s') \<and> s'\<lparr>CR := CR s\<rparr> = s \<and>
         (\<forall>m. bit (CR s') m \<longleftrightarrow> m \<noteq> 18 \<and> bit (CR s) m)) \<and>
   (HSE_MODE \<noteq> BYPASSED \<and> HSE_MODE \<noteq> NOT_BYPASSED \<longrightarrow> RCC_HSE_Mode HSE_MODE s = (1, s))"
  by (simp add: RCC_HSE_Mode_def bit_set_18 bit_clear_18)

theorem HSE_Mode_bypass_bit_witness:
  "RCC_HSE_Mode (HSE_raw 2) (rcc_zero\<lparr>CR := 0x83\<rparr>) = (1, rcc_zero\<lparr>CR := 0x83\<rparr>)"
proof -
  have "HSE_raw 2 \<noteq> BYPASSED \<and> HSE_raw 2 \<noteq> NOT_BYPASSED" by simp
  with HSE_Mode_bypass_bit [of "rcc_zero\<lparr>CR := 0x83\<rparr>" "HSE_raw 2"] show ?thesis by blast
qed

section \<open>PLL configuration\<close>

lemma HSI_neq_HSE: "HSI \<noteq> HSE"
  by (simp add: HSI_def HSE_def)

text \<open>The first wait, for the ready bit to clear after the PLL has been switched off.\<close>

lemma PLL_first_wait:
  assumes "RCC_PLL_Config hw N M Src s = Some (r, s')"
  shows "\<exists>s1. poll hw (\<lambda>t. bit (CR t) 25) (s\<lparr>CR := unset_bit 24 (CR s)\<rparr>) = Some s1"
  using assms by (auto simp add: PLL_Config_eq split: option.splits)

lemma PLL_first_wait_post:
  assumes "poll hw (\<lambda>t. bit (CR t) 25) (s\<lparr>CR := unset_bit 24 (CR s)\<rparr>) = Some s1"
  shows "\<not> bit (CR s1) 25"
    and "preserves hw (\<lambda>t. bit (CR t) 24) \<Longrightarrow> \<not> bit (CR s1) 24"
    and "n \<noteq> 24 \<Longrightarrow> preserves hw (\<lambda>t. bit (CR t) n) \<Longrightarrow> bit (CR s1) n = bit (CR s) n"
    and "preserves hw (\<lambda>t. bit (PLLCFGR t) n) \<Longrightarrow> bit (PLLCFGR s1) n = bit (PLLCFGR s) n"
    and "preserves hw PLLCFGR \<Longrightarrow> PLLCFGR s1 = PLLCFGR s"
    and "preserves hw (\<lambda>t. t\<lparr>CR := 0, PLLCFGR := 0\<rparr>) \<Longrightarrow>
           s1\<lparr>CR := 0, PLLCFGR := 0\<rparr> = s\<lparr>CR := 0, PLLCFGR := 0\<rparr>"
proof -
  from poll_not_waiting[OF assms] show "\<not> bit (CR s1) 25" by simp
  show "\<not> bit (CR s1) 24" if "preserves hw (\<lambda>t. bit (CR t) 24)"
    using poll_preserves[OF assms that] by (simp add: bit_unset_bit_u32)
  show "bit (CR s1) n = bit (CR s) n" if "n \<noteq> 24" "preserves hw (\<lambda>t. bit (CR t) n)"
    using poll_preserves[OF assms that(2)] that(1) by (simp add: bit_unset_bit_u32)
  show "bit (PLLCFGR s1) n = bit (PLLCFGR s) n" if "preserves hw (\<lambda>t. bit (PLLCFGR t) n)"
    using poll_preserves[OF assms that] by simp
  show "PLLCFGR s1 = PLLCFGR s" if "preserves hw PLLCFGR"
    using poll_preserves[OF assms that] by simp
  show "s1\<lparr>CR := 0, PLLCFGR := 0\<rparr> = s\<lparr>CR := 0, PLLCFGR := 0\<rparr>"
    if "preserves hw (\<lambda>t. t\<lparr>CR := 0, PLLCFGR := 0\<rparr>)"
    using poll_preserves[OF assms that] by simp
qed

lemma PLL_first_wait_ends:
  assumes "responds hw (\<lambda>t. \<not> bit (CR t) 24) (\<lambda>t. \<not> bit (CR t) 25)"
  shows "\<exists>s1. poll hw (\<lambda>t. bit (CR t) 25) (s\<lparr>CR := unset_bit 24 (CR s)\<rparr>) = Some s1"
  by (rule poll_responds[OF assms]) (simp_all add: bit_unset_bit_u32)

text \<open>The paths through the function after the first wait.\<close>

lemma PLL_bad_multiplier:
  assumes "N < 50 \<or> 432 < N"
    and "poll hw (\<lambda>t. bit (CR t) 25) (s\<lparr>CR := unset_bit 24 (CR s)\<rparr>) = Some s1"
  shows "RCC_PLL_Config hw N M Src s =
           Some (1, if Src \<noteq> HSI \<and> Src \<noteq> HSE then s1
                    else s1\<lparr>PLLCFGR := pllcfgr_source Src (PLLCFGR s1)\<rparr>)"
  using assms(1) by (elim disjE) (simp_all add: PLL_Config_eq assms(2))

lemma PLL_bad_divider:
  assumes "Src = HSI \<or> Src = HSE" and "50 \<le> N" and "N \<le> 432" and "2 \<le> M" and "M \<le> 63"
    and "M \<noteq> 2" and "M \<noteq> 4" and "M \<noteq> 6" and "M \<noteq> 8"
    and "poll hw (\<lambda>t. bit (CR t) 25) (s\<lparr>CR := unset_bit 24 (CR s)\<rparr>) = Some s1"
  shows "RCC_PLL_Config hw N M Src s =
           Some (1, s1\<lparr>PLLCFGR := pllcfgr_mn M N (pllcfgr_source Src (PLLCFGR s1))\<rparr>)"
proof -
  from assms(2-5) have "\<not> (N < 50 \<or> 432 < N \<or> M < 2 \<or> 63 < M)" by auto
  moreover from assms(1) have "\<not> (Src \<noteq> HSI \<and> Src \<noteq> HSE)" by blast
  moreover from assms(6-9) have "\<not> (M = 2 \<or> M = 4 \<or> M = 6 \<or> M = 8)" by blast
  ultimately show ?thesis by (auto simp add: PLL_Config_eq assms(10))
qed

lemma PLL_valid:
  assumes "Src = HSI \<or> Src = HSE" and "50 \<le> N" and "N \<le> 432"
    and "M = 2 \<or> M = 4 \<or> M = 6 \<or> M = 8"
    and "poll hw (\<lambda>t. bit (CR t) 25) (s\<lparr>CR := unset_bit 24 (CR s)\<rparr>) = Some s1"
  shows "RCC_PLL_Config hw N M Src s =
           (case poll hw (\<lambda>t. \<not> bit (CR t) 25)
                   (s1\<lparr>PLLCFGR := pllcfgr_p (PLLP_code M)
                                     (pllcfgr_mn M N (pllcfgr_source Src (PLLCFGR s1))),
                       CR := set_bit 24 (CR s1)\<rparr>) of
              None \<Rightarrow> None
            | Some s8 \<Rightarrow> Some (0, s8))"
proof -
  from assms(2-4) have "\<not> (N < 50 \<or> 432 < N \<or> M < 2 \<or> 63 < M)" by auto
  moreover from assms(1) have "\<not> (Src \<noteq> HSI \<and> Src \<noteq> HSE)" by blast
  moreover from assms(4) have "\<not> \<not> (M = 2 \<or> M = 4 \<or> M = 6 \<or> M = 8)" by blast
  ultimately show ?thesis by (auto simp add: PLL_Config_eq assms(5))
qed

lemma PLL_success_valid:
  assumes "RCC_PLL_Config hw N M Src s = Some (0, s')"
  shows "(Src = HSI \<or> Src = HSE) \<and> 50 \<le> N \<and> N \<le> 432 \<and> (M = 2 \<or> M = 4 \<or> M = 6 \<or> M = 8)"
  using assms by (auto simp add: PLL_Config_eq split: option.splits if_splits)

lemma divider_le63: "M = 2 \<or> M = 4 \<or> M = 6 \<or> M = 8 \<Longrightarrow> (M::u8) \<le> 63"
  by auto

text \<open>The value stored in the PLL configuration register on the path that succeeds.\<close>

lemma bit_pllcfgr_written:
  assumes "M \<le> 63" and "N \<le> 432"
  shows "bit (pllcfgr_p (PLLP_code M) (pllcfgr_mn M N (pllcfgr_source Src w))) n \<longleftrightarrow>
          (if n < 6 then bit M n
           else if n < 15 then bit N (n - 6)
           else if 16 \<le> n \<and> n < 18 then bit (PLLP_code M) (n - 16)
           else if n = 22 then Src \<noteq> HSI
           else bit w n)"
  by (simp add: bit_pllcfgr_p[OF PLLP_code_le3] bit_pllcfgr_mn[OF assms] bit_pllcfgr_source)

lemma pllcfgr_written_fields:
  fixes w :: u32 and Src :: nat
  assumes "M \<le> 63" and "N \<le> 432"
  defines "x \<equiv> pllcfgr_p (PLLP_code M) (pllcfgr_mn M N (pllcfgr_source Src w))"
  shows "x AND 0x3F = ucast M" and "drop_bit 6 x AND 0x1FF = N"
    and "drop_bit 16 x AND 3 = PLLP_code M" and "bit x 22 \<longleftrightarrow> Src \<noteq> HSI"
proof -
  show "x AND 0x3F = ucast M"
    by (rule field_M) (simp_all add: x_def bit_pllcfgr_written[OF assms(1,2)] assms(1))
  show "drop_bit 6 x AND 0x1FF = N"
    by (rule field_N) (simp_all add: x_def bit_pllcfgr_written[OF assms(1,2)] assms(2))
  show "drop_bit 16 x AND 3 = PLLP_code M"
    by (rule field_P) (simp_all add: x_def bit_pllcfgr_written[OF assms(1,2)] PLLP_code_le3)
  show "bit x 22 \<longleftrightarrow> Src \<noteq> HSI"
    by (simp add: x_def bit_pllcfgr_written[OF assms(1,2)])
qed

lemma pllcfgr_mn_fields:
  assumes "M \<le> 63" and "N \<le> 432"
  shows "pllcfgr_mn M N w AND 0x3F = ucast M" and "drop_bit 6 (pllcfgr_mn M N w) AND 0x1FF = N"
proof -
  show "pllcfgr_mn M N w AND 0x3F = ucast M"
    by (rule field_M) (simp_all add: bit_pllcfgr_mn[OF assms] assms(1))
  show "drop_bit 6 (pllcfgr_mn M N w) AND 0x1FF = N"
    by (rule field_N) (simp_all add: bit_pllcfgr_mn[OF assms] assms(2))
qed

lemma PLL_bad_multiplier_post:
  assumes "N < 50 \<or> 432 < N" and "RCC_PLL_Config hw N M Src s = Some (r, s')"
  shows "r = 1"
    and "preserves hw (\<lambda>t. bit (CR t) 24) \<Longrightarrow> \<not> bit (CR s') 24"
    and "n \<noteq> 24 \<Longrightarrow> preserves hw (\<lambda>t. bit (CR t) n) \<Longrightarrow> bit (CR s') n = bit (CR s) n"
    and "n \<noteq> 22 \<Longrightarrow> preserves hw (\<lambda>t. bit (PLLCFGR t) n) \<Longrightarrow>
           bit (PLLCFGR s') n = bit (PLLCFGR s) n"
    and "Src = HSI \<Longrightarrow> \<not> bit (PLLCFGR s') 22"
    and "Src = HSE \<Longrightarrow> bit (PLLCFGR s') 22"
    and "Src \<noteq> HSI \<Longrightarrow> Src \<noteq> HSE \<Longrightarrow> preserves hw PLLCFGR \<Longrightarrow> PLLCFGR s' = PLLCFGR s"
    and "preserves hw (\<lambda>t. t\<lparr>CR := 0, PLLCFGR := 0\<rparr>) \<Longrightarrow>
           s'\<lparr>CR := 0, PLLCFGR := 0\<rparr> = s\<lparr>CR := 0, PLLCFGR := 0\<rparr>"
proof -
  from PLL_first_wait[OF assms(2)] obtain s1
    where p: "poll hw (\<lambda>t. bit (CR t) 25) (s\<lparr>CR := unset_bit 24 (CR s)\<rparr>) = Some s1" ..
  from assms(2) PLL_bad_multiplier[OF assms(1) p, of M Src]
  have r: "r = 1"
    and s': "s' = (if Src \<noteq> HSI \<and> Src \<noteq> HSE then s1
                   else s1\<lparr>PLLCFGR := pllcfgr_source Src (PLLCFGR s1)\<rparr>)"
    by simp_all
  note post = PLL_first_wait_post[OF p]
  show "r = 1" by (rule r)
  show "\<not> bit (CR s') 24" if "preserves hw (\<lambda>t. bit (CR t) 24)"
    using post(2)[OF that] by (simp add: s')
  show "bit (CR s') n = bit (CR s) n" if "n \<noteq> 24" "preserves hw (\<lambda>t. bit (CR t) n)"
    using post(3)[OF that] by (simp add: s')
  show "bit (PLLCFGR s') n = bit (PLLCFGR s) n"
    if "n \<noteq> 22" "preserves hw (\<lambda>t. bit (PLLCFGR t) n)"
    using post(4)[OF that(2)] that(1) by (simp add: s' bit_pllcfgr_source)
  show "\<not> bit (PLLCFGR s') 22" if "Src = HSI"
    using that by (simp add: s' bit_pllcfgr_source)
  show "bit (PLLCFGR s') 22" if "Src = HSE"
    using that HSI_neq_HSE by (simp add: s' bit_pllcfgr_source)
  show "PLLCFGR s' = PLLCFGR s" if "Src \<noteq> HSI" "Src \<noteq> HSE" "preserves hw PLLCFGR"
    using post(5)[OF that(3)] that(1,2) by (simp add: s')
  show "s'\<lparr>CR := 0, PLLCFGR := 0\<rparr> = s\<lparr>CR := 0, PLLCFGR := 0\<rparr>"
    if "preserves hw (\<lambda>t. t\<lparr>CR := 0, PLLCFGR := 0\<rparr>)"
    using post(6)[OF that] by (simp add: s')
qed

lemma PLL_bad_multiplier_returns:
  assumes "N < 50 \<or> 432 < N"
    and "responds hw (\<lambda>t. \<not> bit (CR t) 24) (\<lambda>t. \<not> bit (CR t) 25)"
  shows "\<exists>s'. RCC_PLL_Config hw N M Src s = Some (1, s')"
proof -
  from PLL_first_wait_ends[OF assms(2), of s] obtain s1
    where "poll hw (\<lambda>t. bit (CR t) 25) (s\<lparr>CR := unset_bit 24 (CR s)\<rparr>) = Some s1" ..
  from PLL_bad_multiplier[OF assms(1) this] show ?thesis by blast
qed

text \<open>
  Claim C2, as the code has it. For a multiplication factor outside 50 to 432 (any
  division factor, any source) \<^verbatim>\<open>RCC_PLL_Config\<close> never returns 0: whenever it returns
  it returns 1, and it does return once the hardware clears the PLL ready bit. By then the
  driver has cleared the PLL enable bit (bit 24 of CR) and, for the source HSI or HSE,
  written the source bit (bit 22 of PLLCFGR: 0 for HSI, 1 for HSE). It has written nothing
  else: every other bit of CR and of PLLCFGR, so each of the M, N and P fields, that the
  hardware does not drive keeps its value, and so do all other registers.
\<close>

theorem PLL_Config_bad_multiplier:
  assumes "PLL_Multiplexer < 50 \<or> 432 < PLL_Multiplexer"
  shows
  "(\<forall>r s'. RCC_PLL_Config hw PLL_Multiplexer PLL_Division Src s = Some (r, s') \<longrightarrow>
      r = 1 \<and>
      (preserves hw (\<lambda>t. bit (CR t) 24) \<longrightarrow> \<not> bit (CR s') 24) \<and>
      (\<forall>n. n \<noteq> 24 \<longrightarrow> preserves hw (\<lambda>t. bit (CR t) n) \<longrightarrow> bit (CR s') n = bit (CR s) n) \<and>
      (\<forall>n. n \<noteq> 22 \<longrightarrow> preserves hw (\<lambda>t. bit (PLLCFGR t) n) \<longrightarrow>
           bit (PLLCFGR s') n = bit (PLLCFGR s) n) \<and>
      (Src = HSI \<longrightarrow> \<not> bit (PLLCFGR s') 22) \<and>
      (Src = HSE \<longrightarrow> bit (PLLCFGR s') 22) \<and>
      (Src \<noteq> HSI \<and> Src \<noteq> HSE \<and> preserves hw PLLCFGR \<longrightarrow> PLLCFGR s' = PLLCFGR s) \<and>
      (preserves hw (\<lambda>t. t\<lparr>CR := 0, PLLCFGR := 0\<rparr>) \<longrightarrow>
           s'\<lparr>CR := 0, PLLCFGR := 0\<rparr> = s\<lparr>CR := 0, PLLCFGR := 0\<rparr>)) \<and>
   (responds hw (\<lambda>t. \<not> bit (CR t) 24) (\<lambda>t. \<not> bit (CR t) 25) \<longrightarrow>
      (\<exists>s'. RCC_PLL_Config hw PLL_Multiplexer PLL_Division Src s = Some (1, s')))"
proof (intro conjI allI impI)
  fix r s'
  assume res: "RCC_PLL_Config hw PLL_Multiplexer PLL_Division Src s = Some (r, s')"
  note post = PLL_bad_multiplier_post[OF assms res]
  show "r = 1" by (rule post(1))
  show "\<not> bit (CR s') 24" if "preserves hw (\<lambda>t. bit (CR t) 24)"
    by (rule post(2)[OF that])
  show "bit (CR s') n = bit (CR s) n" if "n \<noteq> 24" "preserves hw (\<lambda>t. bit (CR t) n)" for n
    by (rule post(3)[OF that])
  show "bit (PLLCFGR s') n = bit (PLLCFGR s) n"
    if "n \<noteq> 22" "preserves hw (\<lambda>t. bit (PLLCFGR t) n)" for n
    by (rule post(4)[OF that])
  show "\<not> bit (PLLCFGR s') 22" if "Src = HSI" by (rule post(5)[OF that])
  show "bit (PLLCFGR s') 22" if "Src = HSE" by (rule post(6)[OF that])
  show "PLLCFGR s' = PLLCFGR s" if "Src \<noteq> HSI \<and> Src \<noteq> HSE \<and> preserves hw PLLCFGR"
    using that post(7) by blast
  show "s'\<lparr>CR := 0, PLLCFGR := 0\<rparr> = s\<lparr>CR := 0, PLLCFGR := 0\<rparr>"
    if "preserves hw (\<lambda>t. t\<lparr>CR := 0, PLLCFGR := 0\<rparr>)"
    by (rule post(8)[OF that])
next
  assume "responds hw (\<lambda>t. \<not> bit (CR t) 24) (\<lambda>t. \<not> bit (CR t) 25)"
  with assms show "\<exists>s'. RCC_PLL_Config hw PLL_Multiplexer PLL_Division Src s = Some (1, s')"
    by (rule PLL_bad_multiplier_returns)
qed

theorem PLL_Config_bad_multiplier_witness:
  "\<exists>s'. RCC_PLL_Config hw_ready 433 2 HSE
           (rcc_zero\<lparr>CR := 0x03000000, PLLCFGR := 0x24003010\<rparr>) = Some (1, s') \<and>
        \<not> bit (CR s') 24 \<and> bit (PLLCFGR s') 22 \<and> bit (PLLCFGR s') 4 \<and> \<not> bit (PLLCFGR s') 5"
proof -
  let ?s = "rcc_zero\<lparr>CR := 0x03000000, PLLCFGR := 0x24003010\<rparr>"
  have bad: "(433::u32) < 50 \<or> 432 < (433::u32)" by simp
  note inst = PLL_Config_bad_multiplier [OF bad, of hw_ready 2 HSE ?s]
  from inst[THEN conjunct2, rule_format, OF hw_ready_PLL(2)]
  obtain s' where s': "RCC_PLL_Config hw_ready 433 2 HSE ?s = Some (1, s')" by auto
  note post = inst[THEN conjunct1, rule_format, OF s']
  have "\<not> bit (CR s') 24"
    using post by (simp add: hw_ready_CR_bit)
  moreover have "bit (PLLCFGR s') 22"
    using post by simp
  moreover have "bit (PLLCFGR s') 4 \<and> \<not> bit (PLLCFGR s') 5"
    using post by (simp add: hw_ready_PLLCFGR_bit rcc_zero_def)
  ultimately show ?thesis using s' by blast
qed

text \<open>
  The claim as stated fails: with a hardware that changes nothing, a call with the factor
  433 returns 1 after the driver has cleared bit 24 of CR and set bit 22 of PLLCFGR.
\<close>

theorem PLL_Config_bad_multiplier_writes:
  "RCC_PLL_Config hw_stuck 433 2 HSE (rcc_zero\<lparr>CR := 0x01000000\<rparr>) =
     Some (1, rcc_zero\<lparr>CR := 0, PLLCFGR := 0x00400000\<rparr>) \<and>
   CR (rcc_zero\<lparr>CR := 0, PLLCFGR := 0x00400000\<rparr>) \<noteq> CR (rcc_zero\<lparr>CR := 0x01000000\<rparr>) \<and>
   PLLCFGR (rcc_zero\<lparr>CR := 0, PLLCFGR := 0x00400000\<rparr>) \<noteq> PLLCFGR (rcc_zero\<lparr>CR := 0x01000000\<rparr>)"
  by (simp add: RCC_PLL_Config_def PLL_source_def HSI_def HSE_def hw_stuck_def rcc_zero_def
      poll_done)

lemma PLL_bad_divider_post:
  assumes "Src = HSI \<or> Src = HSE" and "50 \<le> N" and "N \<le> 432" and "2 \<le> M" and "M \<le> 63"
    and "M \<noteq> 2" and "M \<noteq> 4" and "M \<noteq> 6" and "M \<noteq> 8"
    and "RCC_PLL_Config hw N M Src s = Some (r, s')"
  shows "r = 1" and "PLLCFGR s' AND 0x3F = ucast M" and "drop_bit 6 (PLLCFGR s') AND 0x1FF = N"
    and "preserves hw (\<lambda>t. bit (CR t) 24) \<Longrightarrow> \<not> bit (CR s') 24"
proof -
  from PLL_first_wait[OF assms(10)] obtain s1
    where p: "poll hw (\<lambda>t. bit (CR t) 25) (s\<lparr>CR := unset_bit 24 (CR s)\<rparr>) = Some s1" ..
  from assms(10) PLL_bad_divider[OF assms(1-9) p]
  have r: "r = 1"
    and s': "s' = s1\<lparr>PLLCFGR := pllcfgr_mn M N (pllcfgr_source Src (PLLCFGR s1))\<rparr>"
    by simp_all
  show "r = 1" by (rule r)
  show "PLLCFGR s' AND 0x3F = ucast M"
    by (simp add: s' pllcfgr_mn_fields[OF assms(5) assms(3)])
  show "drop_bit 6 (PLLCFGR s') AND 0x1FF = N"
    by (simp add: s' pllcfgr_mn_fields[OF assms(5) assms(3)])
  show "\<not> bit (CR s') 24" if "preserves hw (\<lambda>t. bit (CR t) 24)"
    using PLL_first_wait_post(2)[OF p that] by (simp add: s')
qed

lemma PLL_bad_divider_returns:
  assumes "Src = HSI \<or> Src = HSE" and "50 \<le> N" and "N \<le> 432" and "2 \<le> M" and "M \<le> 63"
    and "M \<noteq> 2" and "M \<noteq> 4" and "M \<noteq> 6" and "M \<noteq> 8"
    and "responds hw (\<lambda>t. \<not> bit (CR t) 24) (\<lambda>t. \<not> bit (CR t) 25)"
  shows "\<exists>s'. RCC_PLL_Config hw N M Src s = Some (1, s')"
proof -
  from PLL_first_wait_ends[OF assms(10), of s] obtain s1
    where "poll hw (\<lambda>t. bit (CR t) 25) (s\<lparr>CR := unset_bit 24 (CR s)\<rparr>) = Some s1" ..
  from PLL_bad_divider[OF assms(1-9) this] show ?thesis by blast
qed

text \<open>
  Claim C4. For a division factor from 2 to 63 that is not 2, 4, 6 or 8 (source HSI or
  HSE, multiplication factor from 50 to 432) \<^verbatim>\<open>RCC_PLL_Config\<close> returns 1 whenever it
  returns, and it returns once the hardware clears the PLL ready bit. At that point the M
  field (bits 5:0) and the N field (bits 14:6) of PLLCFGR hold the new factors, and the
  PLL enable bit (bit 24 of CR), which the hardware does not set, is clear.
\<close>

theorem PLL_Config_bad_divider:
  assumes "Src = HSI \<or> Src = HSE" and "50 \<le> PLL_Multiplexer" and "PLL_Multiplexer \<le> 432"
    and "2 \<le> PLL_Division" and "PLL_Division \<le> 63" and "PLL_Division \<notin> {2, 4, 6, 8}"
  shows
  "(\<forall>r s'. RCC_PLL_Config hw PLL_Multiplexer PLL_Division Src s = Some (r, s') \<longrightarrow>
      r = 1 \<and>
      PLLCFGR s' AND 0x3F = ucast PLL_Division \<and>
      drop_bit 6 (PLLCFGR s') AND 0x1FF = PLL_Multiplexer \<and>
      (preserves hw (\<lambda>t. bit (CR t) 24) \<longrightarrow> \<not> bit (CR s') 24)) \<and>
   (responds hw (\<lambda>t. \<not> bit (CR t) 24) (\<lambda>t. \<not> bit (CR t) 25) \<longrightarrow>
      (\<exists>s'. RCC_PLL_Config hw PLL_Multiplexer PLL_Division Src s = Some (1, s')))"
proof -
  from assms(6) have ne: "PLL_Division \<noteq> 2" "PLL_Division \<noteq> 4" "PLL_Division \<noteq> 6"
    "PLL_Division \<noteq> 8" by simp_all
  note post = PLL_bad_divider_post[OF assms(1-5) ne]
  note ret = PLL_bad_divider_returns[OF assms(1-5) ne]
  show ?thesis
  proof (intro conjI allI impI)
    fix r s'
    assume res: "RCC_PLL_Config hw PLL_Multiplexer PLL_Division Src s = Some (r, s')"
    show "r = 1" by (rule post(1)[OF res])
    show "PLLCFGR s' AND 0x3F = ucast PLL_Division" by (rule post(2)[OF res])
    show "drop_bit 6 (PLLCFGR s') AND 0x1FF = PLL_Multiplexer" by (rule post(3)[OF res])
    show "\<not> bit (CR s') 24" if "preserves hw (\<lambda>t. bit (CR t) 24)"
      by (rule post(4)[OF res that])
  next
    assume "responds hw (\<lambda>t. \<not> bit (CR t) 24) (\<lambda>t. \<not> bit (CR t) 25)"
    then show "\<exists>s'. RCC_PLL_Config hw PLL_Multiplexer PLL_Division Src s = Some (1, s')"
      by (rule ret)
  qed
qed

theorem PLL_Config_bad_divider_witness:
  "\<exists>s'. RCC_PLL_Config hw_ready 50 3 HSI
           (rcc_zero\<lparr>CR := 0x03000000, PLLCFGR := 0x24003010\<rparr>) = Some (1, s') \<and>
        PLLCFGR s' AND 0x3F = 3 \<and> drop_bit 6 (PLLCFGR s') AND 0x1FF = 50 \<and> \<not> bit (CR s') 24"
proof -
  let ?s = "rcc_zero\<lparr>CR := 0x03000000, PLLCFGR := 0x24003010\<rparr>"
  have a: "HSI = HSI \<or> HSI = HSE" "(50::u32) \<le> 50" "(50::u32) \<le> 432" "(2::u8) \<le> 3"
    "(3::u8) \<le> 63" "(3::u8) \<notin> {2, 4, 6, 8}" by simp_all
  note inst = PLL_Config_bad_divider [OF a, of hw_ready ?s]
  from inst[THEN conjunct2, rule_format, OF hw_ready_PLL(2)]
  obtain s' where s': "RCC_PLL_Config hw_ready 50 3 HSI ?s = Some (1, s')" by auto
  note post = inst[THEN conjunct1, rule_format, OF s']
  have "\<not> bit (CR s') 24"
    using post by (simp add: hw_ready_CR_bit)
  with post s' show ?thesis by simp
qed

lemma PLL_valid_second_wait:
  assumes "Src = HSI \<or> Src = HSE" and "50 \<le> N" and "N \<le> 432"
    and "M = 2 \<or> M = 4 \<or> M = 6 \<or> M = 8"
    and "RCC_PLL_Config hw N M Src s = Some (r, s')"
  obtains s1 where "poll hw (\<lambda>t. bit (CR t) 25) (s\<lparr>CR := unset_bit 24 (CR s)\<rparr>) = Some s1"
    and "poll hw (\<lambda>t. \<not> bit (CR t) 25)
           (s1\<lparr>PLLCFGR := pllcfgr_p (PLLP_code M)
                              (pllcfgr_mn M N (pllcfgr_source Src (PLLCFGR s1))),
               CR := set_bit 24 (CR s1)\<rparr>) = Some s'"
    and "r = 0"
proof -
  from PLL_first_wait[OF assms(5)] obtain s1
    where p: "poll hw (\<lambda>t. bit (CR t) 25) (s\<lparr>CR := unset_bit 24 (CR s)\<rparr>) = Some s1" ..
  from assms(5) PLL_valid[OF assms(1-4) p]
  have "poll hw (\<lambda>t. \<not> bit (CR t) 25)
           (s1\<lparr>PLLCFGR := pllcfgr_p (PLLP_code M)
                              (pllcfgr_mn M N (pllcfgr_source Src (PLLCFGR s1))),
               CR := set_bit 24 (CR s1)\<rparr>) = Some s' \<and> r = 0"
    by (simp split: option.splits)
  with p that show thesis by blast
qed

lemma PLL_valid_post:
  assumes "Src = HSI \<or> Src = HSE" and "50 \<le> N" and "N \<le> 432"
    and "M = 2 \<or> M = 4 \<or> M = 6 \<or> M = 8"
    and "RCC_PLL_Config hw N M Src s = Some (r, s')"
  shows "r = 0" and "bit (CR s') 25"
    and "preserves hw (\<lambda>t. bit (CR t) 24) \<Longrightarrow> bit (CR s') 24"
    and "preserves hw PLLCFGR \<Longrightarrow> PLLCFGR s' AND 0x3F = ucast M"
    and "preserves hw PLLCFGR \<Longrightarrow> drop_bit 6 (PLLCFGR s') AND 0x1FF = N"
    and "preserves hw PLLCFGR \<Longrightarrow> drop_bit 16 (PLLCFGR s') AND 3 = PLLP_code M"
    and "preserves hw PLLCFGR \<Longrightarrow> bit (PLLCFGR s') 22 \<longleftrightarrow> Src = HSE"
proof -
  from assms obtain s1
    where p1: "poll hw (\<lambda>t. bit (CR t) 25) (s\<lparr>CR := unset_bit 24 (CR s)\<rparr>) = Some s1"
      and p2: "poll hw (\<lambda>t. \<not> bit (CR t) 25)
           (s1\<lparr>PLLCFGR := pllcfgr_p (PLLP_code M)
                              (pllcfgr_mn M N (pllcfgr_source Src (PLLCFGR s1))),
               CR := set_bit 24 (CR s1)\<rparr>) = Some s'"
      and r: "r = 0"
    by (rule PLL_valid_second_wait)
  note M = divider_le63[OF assms(4)]
  note fields = pllcfgr_written_fields[OF M assms(3), of Src "PLLCFGR s1"]
  show "r = 0" by (rule r)
  from poll_not_waiting[OF p2] show "bit (CR s') 25" by simp
  show "bit (CR s') 24" if "preserves hw (\<lambda>t. bit (CR t) 24)"
    using poll_preserves[OF p2 that] by (simp add: bit_set_bit_u32)
  assume pres: "preserves hw PLLCFGR"
  from poll_preserves[OF p2 pres]
  have eq: "PLLCFGR s' =
      pllcfgr_p (PLLP_code M) (pllcfgr_mn M N (pllcfgr_source Src (PLLCFGR s1)))"
    by simp
  show "PLLCFGR s' AND 0x3F = ucast M" unfolding eq by (rule fields(1))
  show "drop_bit 6 (PLLCFGR s') AND 0x1FF = N" unfolding eq by (rule fields(2))
  show "drop_bit 16 (PLLCFGR s') AND 3 = PLLP_code M" unfolding eq by (rule fields(3))
  from assms(1) HSI_neq_HSE show "bit (PLLCFGR s') 22 \<longleftrightarrow> Src = HSE"
    unfolding eq fields(4) by auto
qed

lemma PLL_valid_returns:
  assumes "Src = HSI \<or> Src = HSE" and "50 \<le> N" and "N \<le> 432"
    and "M = 2 \<or> M = 4 \<or> M = 6 \<or> M = 8"
    and "responds hw (\<lambda>t. \<not> bit (CR t) 24) (\<lambda>t. \<not> bit (CR t) 25)"
    and "responds hw (\<lambda>t. bit (CR t) 24) (\<lambda>t. bit (CR t) 25)"
  shows "\<exists>s'. RCC_PLL_Config hw N M Src s = Some (0, s')"
proof -
  from PLL_first_wait_ends[OF assms(5), of s] obtain s1
    where p: "poll hw (\<lambda>t. bit (CR t) 25) (s\<lparr>CR := unset_bit 24 (CR s)\<rparr>) = Some s1" ..
  have "\<exists>s8. poll hw (\<lambda>t. \<not> bit (CR t) 25)
           (s1\<lparr>PLLCFGR := pllcfgr_p (PLLP_code M)
                              (pllcfgr_mn M N (pllcfgr_source Src (PLLCFGR s1))),
               CR := set_bit 24 (CR s1)\<rparr>) = Some s8"
    by (rule poll_responds[OF assms(6)]) (simp_all add: bit_set_bit_u32)
  then show ?thesis by (auto simp add: PLL_valid[OF assms(1-4) p])
qed

text \<open>
  Claim C3. For a source HSI or HSE, a multiplication factor from 50 to 432 and a division
  factor 2, 4, 6 or 8, \<^verbatim>\<open>RCC_PLL_Config\<close> never returns 1: it returns 0, and it does
  return once the hardware clears the PLL ready bit after the PLL is switched off and
  sets it after the PLL is switched on. On return the ready bit (bit 25 of CR) is set,
  the enable bit (bit 24), which the hardware does not clear, is set, and PLLCFGR, which
  the hardware does not change, has the M field (bits 5:0) equal to the division factor,
  the N field (bits 14:6) equal to the multiplication factor, the P code (bits 17:16)
  0, 1, 2, 3 for the division factor 2, 4, 6, 8, and bit 22 clear for HSI, set for HSE.
\<close>

theorem PLL_Config_success:
  assumes "Src = HSI \<or> Src = HSE" and "50 \<le> PLL_Multiplexer" and "PLL_Multiplexer \<le> 432"
    and "PLL_Division \<in> {2, 4, 6, 8}"
  shows
  "(\<forall>r s'. RCC_PLL_Config hw PLL_Multiplexer PLL_Division Src s = Some (r, s') \<longrightarrow>
      r = 0 \<and> bit (CR s') 25 \<and>
      (preserves hw (\<lambda>t. bit (CR t) 24) \<longrightarrow> bit (CR s') 24) \<and>
      (preserves hw PLLCFGR \<longrightarrow>
         PLLCFGR s' AND 0x3F = ucast PLL_Division \<and>
         drop_bit 6 (PLLCFGR s') AND 0x1FF = PLL_Multiplexer \<and>
         drop_bit 16 (PLLCFGR s') AND 3 =
           (if PLL_Division = 2 then 0 else if PLL_Division = 4 then 1
            else if PLL_Division = 6 then 2 else 3) \<and>
         (bit (PLLCFGR s') 22 \<longleftrightarrow> Src = HSE))) \<and>
   (responds hw (\<lambda>t. \<not> bit (CR t) 24) (\<lambda>t. \<not> bit (CR t) 25) \<and>
    responds hw (\<lambda>t. bit (CR t) 24) (\<lambda>t. bit (CR t) 25) \<longrightarrow>
      (\<exists>s'. RCC_PLL_Config hw PLL_Multiplexer PLL_Division Src s = Some (0, s')))"
proof -
  from assms(4) have M: "PLL_Division = 2 \<or> PLL_Division = 4 \<or> PLL_Division = 6 \<or> PLL_Division = 8"
    by simp
  note post = PLL_valid_post[OF assms(1-3) M]
  note ret = PLL_valid_returns[OF assms(1-3) M]
  show ?thesis
  proof (intro conjI allI impI)
    fix r s'
    assume res: "RCC_PLL_Config hw PLL_Multiplexer PLL_Division Src s = Some (r, s')"
    show "r = 0" by (rule post(1)[OF res])
    show "bit (CR s') 25" by (rule post(2)[OF res])
    show "bit (CR s') 24" if "preserves hw (\<lambda>t. bit (CR t) 24)"
      by (rule post(3)[OF res that])
    show "PLLCFGR s' AND 0x3F = ucast PLL_Division" if "preserves hw PLLCFGR"
      by (rule post(4)[OF res that])
    show "drop_bit 6 (PLLCFGR s') AND 0x1FF = PLL_Multiplexer" if "preserves hw PLLCFGR"
      by (rule post(5)[OF res that])
    show "drop_bit 16 (PLLCFGR s') AND 3 =
           (if PLL_Division = 2 then 0 else if PLL_Division = 4 then 1
            else if PLL_Division = 6 then 2 else 3)" if "preserves hw PLLCFGR"
      using post(6)[OF res that] by (simp add: PLLP_code_def)
    show "bit (PLLCFGR s') 22 \<longleftrightarrow> Src = HSE" if "preserves hw PLLCFGR"
      by (rule post(7)[OF res that])
  next
    assume "responds hw (\<lambda>t. \<not> bit (CR t) 24) (\<lambda>t. \<not> bit (CR t) 25) \<and>
      responds hw (\<lambda>t. bit (CR t) 24) (\<lambda>t. bit (CR t) 25)"
    then show "\<exists>s'. RCC_PLL_Config hw PLL_Multiplexer PLL_Division Src s = Some (0, s')"
      using ret by blast
  qed
qed

theorem PLL_Config_success_witness:
  "\<exists>s'. RCC_PLL_Config hw_ready 50 2 HSI
           (rcc_zero\<lparr>CR := 0x03000083, PLLCFGR := 0x24403010\<rparr>) = Some (0, s') \<and>
        PLLCFGR s' AND 0x3F = 2 \<and> drop_bit 6 (PLLCFGR s') AND 0x1FF = 50 \<and>
        drop_bit 16 (PLLCFGR s') AND 3 = 0 \<and> \<not> bit (PLLCFGR s') 22 \<and>
        bit (CR s') 24 \<and> bit (CR s') 25"
proof -
  let ?s = "rcc_zero\<lparr>CR := 0x03000083, PLLCFGR := 0x24403010\<rparr>"
  have a: "HSI = HSI \<or> HSI = HSE" "(50::u32) \<le> 50" "(50::u32) \<le> 432"
    "(2::u8) \<in> {2, 4, 6, 8}" by simp_all
  note inst = PLL_Config_success [OF a, of hw_ready ?s]
  from inst[THEN conjunct2, rule_format, OF conjI, OF hw_ready_PLL(2) hw_ready_PLL(1)]
  obtain s' where s': "RCC_PLL_Config hw_ready 50 2 HSI ?s = Some (0, s')" by auto
  note post = inst[THEN conjunct1, rule_format, OF s']
  have "bit (CR s') 24"
    using post by (simp add: hw_ready_CR_bit)
  moreover have "PLLCFGR s' AND 0x3F = 2 \<and> drop_bit 6 (PLLCFGR s') AND 0x1FF = 50 \<and>
        drop_bit 16 (PLLCFGR s') AND 3 = 0 \<and> \<not> bit (PLLCFGR s') 22"
    using post HSI_neq_HSE by (simp add: hw_ready_PLLCFGR)
  ultimately show ?thesis using post s' by simp
qed

lemma no_spill_M: "(M::u8) \<le> 63 \<Longrightarrow> push_bit 0 (ucast M) AND NOT (push_bit 0 0x3F) = (0::u32)"
proof (rule bit_eqI)
  fix n
  assume "M \<le> 63"
  from bit_le63[OF this, of n]
  show "bit (push_bit 0 (ucast M) AND NOT (push_bit 0 0x3F) :: u32) n = bit (0::u32) n"
    by (auto simp add: mask6_numeral bit_simps dest: bit_imp_le_length)
qed

lemma no_spill_N: "(N::u32) \<le> 432 \<Longrightarrow> push_bit 6 N AND NOT (push_bit 6 0x1FF) = 0"
proof (rule bit_eqI)
  fix n
  assume "N \<le> 432"
  from bit_le432[OF this, of "n - 6"]
  show "bit (push_bit 6 N AND NOT (push_bit 6 0x1FF)) n = bit (0::u32) n"
    by (auto simp add: mask9_numeral bit_simps dest: bit_imp_le_length)
qed

lemma PLL_success_frame:
  assumes "RCC_PLL_Config hw N M Src s = Some (0, s')"
  shows "n \<notin> {0..14} \<union> {16, 17, 22} \<Longrightarrow> preserves hw (\<lambda>t. bit (PLLCFGR t) n) \<Longrightarrow>
           bit (PLLCFGR s') n = bit (PLLCFGR s) n"
    and "n \<noteq> 24 \<Longrightarrow> preserves hw (\<lambda>t. bit (CR t) n) \<Longrightarrow> bit (CR s') n = bit (CR s) n"
    and "preserves hw (\<lambda>t. t\<lparr>CR := 0, PLLCFGR := 0\<rparr>) \<Longrightarrow>
           s'\<lparr>CR := 0, PLLCFGR := 0\<rparr> = s\<lparr>CR := 0, PLLCFGR := 0\<rparr>"
proof -
  from PLL_success_valid[OF assms]
  have v: "Src = HSI \<or> Src = HSE" "50 \<le> N" "N \<le> 432" "M = 2 \<or> M = 4 \<or> M = 6 \<or> M = 8"
    by simp_all
  from v assms obtain s1
    where p1: "poll hw (\<lambda>t. bit (CR t) 25) (s\<lparr>CR := unset_bit 24 (CR s)\<rparr>) = Some s1"
      and p2: "poll hw (\<lambda>t. \<not> bit (CR t) 25)
           (s1\<lparr>PLLCFGR := pllcfgr_p (PLLP_code M)
                              (pllcfgr_mn M N (pllcfgr_source Src (PLLCFGR s1))),
               CR := set_bit 24 (CR s1)\<rparr>) = Some s'"
    by (rule PLL_valid_second_wait)
  note M = divider_le63[OF v(4)]
  note post = PLL_first_wait_post[OF p1]
  show "bit (PLLCFGR s') n = bit (PLLCFGR s) n"
    if "n \<notin> {0..14} \<union> {16, 17, 22}" "preserves hw (\<lambda>t. bit (PLLCFGR t) n)"
    using poll_preserves[OF p2 that(2)] post(4)[OF that(2)] that(1)
    by (auto simp add: bit_pllcfgr_written[OF M v(3)])
  show "bit (CR s') n = bit (CR s) n" if "n \<noteq> 24" "preserves hw (\<lambda>t. bit (CR t) n)"
    using poll_preserves[OF p2 that(2)] post(3)[OF that] that(1)
    by (simp add: bit_set_bit_u32)
  show "s'\<lparr>CR := 0, PLLCFGR := 0\<rparr> = s\<lparr>CR := 0, PLLCFGR := 0\<rparr>"
    if "preserves hw (\<lambda>t. t\<lparr>CR := 0, PLLCFGR := 0\<rparr>)"
    using poll_preserves[OF p2 that] post(6)[OF that] by simp
qed

text \<open>
  Claim C10. When \<^verbatim>\<open>RCC_PLL_Config\<close> returns 0, the driver has written only bits
  5:0, 14:6, 17:16 and 22 of PLLCFGR and bit 24 of CR: every other bit of the two
  registers that the hardware does not drive has its prior value, and so have all other
  registers when the hardware does not change them. The factors have passed validation,
  so the division factor is at most 63 and the multiplication factor at most 432, and
  the values written into the M and N fields have no bit outside bits 5:0 and bits 14:6.
\<close>

theorem PLL_Config_success_frame:
  assumes "RCC_PLL_Config hw PLL_Multiplexer PLL_Division Src s = Some (0, s')"
  shows
  "(\<forall>n. n \<notin> {0..14} \<union> {16, 17, 22} \<longrightarrow> preserves hw (\<lambda>t. bit (PLLCFGR t) n) \<longrightarrow>
        bit (PLLCFGR s') n = bit (PLLCFGR s) n) \<and>
   (\<forall>n. n \<noteq> 24 \<longrightarrow> preserves hw (\<lambda>t. bit (CR t) n) \<longrightarrow> bit (CR s') n = bit (CR s) n) \<and>
   (preserves hw (\<lambda>t. t\<lparr>CR := 0, PLLCFGR := 0\<rparr>) \<longrightarrow>
        s'\<lparr>CR := 0, PLLCFGR := 0\<rparr> = s\<lparr>CR := 0, PLLCFGR := 0\<rparr>) \<and>
   PLL_Division \<le> 63 \<and> PLL_Multiplexer \<le> 432 \<and>
   push_bit 0 (ucast PLL_Division) AND NOT (push_bit 0 0x3F) = (0::u32) \<and>
   push_bit 6 PLL_Multiplexer AND NOT (push_bit 6 0x1FF) = 0"
proof -
  from PLL_success_valid[OF assms]
  have N: "PLL_Multiplexer \<le> 432" and M: "PLL_Division \<le> 63"
    by (simp_all add: divider_le63)
  note frame = PLL_success_frame[OF assms]
  show ?thesis
  proof (intro conjI allI impI)
    show "bit (PLLCFGR s') n = bit (PLLCFGR s) n"
      if "n \<notin> {0..14} \<union> {16, 17, 22}" "preserves hw (\<lambda>t. bit (PLLCFGR t) n)" for n
      by (rule frame(1)[OF that])
    show "bit (CR s') n = bit (CR s) n" if "n \<noteq> 24" "preserves hw (\<lambda>t. bit (CR t) n)" for n
      by (rule frame(2)[OF that])
    show "s'\<lparr>CR := 0, PLLCFGR := 0\<rparr> = s\<lparr>CR := 0, PLLCFGR := 0\<rparr>"
      if "preserves hw (\<lambda>t. t\<lparr>CR := 0, PLLCFGR := 0\<rparr>)"
      by (rule frame(3)[OF that])
    show "PLL_Division \<le> 63" by (rule M)
    show "PLL_Multiplexer \<le> 432" by (rule N)
    show "push_bit 0 (ucast PLL_Division) AND NOT (push_bit 0 0x3F) = (0::u32)"
      by (rule no_spill_M[OF M])
    show "push_bit 6 PLL_Multiplexer AND NOT (push_bit 6 0x1FF) = 0"
      by (rule no_spill_N[OF N])
  qed
qed

theorem PLL_Config_success_frame_witness:
  "\<exists>s'. RCC_PLL_Config hw_ready 50 2 HSI
           (rcc_zero\<lparr>CR := 0x03000083, PLLCFGR := 0x24403010, AHB1ENR := 7\<rparr>) = Some (0, s') \<and>
        bit (PLLCFGR s') 26 \<and> \<not> bit (PLLCFGR s') 15 \<and> bit (CR s') 0 \<and> bit (CR s') 7 \<and>
        s'\<lparr>CR := 0, PLLCFGR := 0\<rparr> = rcc_zero\<lparr>AHB1ENR := 7\<rparr>"
proof -
  let ?s = "rcc_zero\<lparr>CR := 0x03000083, PLLCFGR := 0x24403010, AHB1ENR := 7\<rparr>"
  have "\<exists>s'. RCC_PLL_Config hw_ready 50 2 HSI ?s = Some (0, s')"
    by (rule PLL_valid_returns[OF _ _ _ _ hw_ready_PLL(2) hw_ready_PLL(1)]) simp_all
  then obtain s' where s': "RCC_PLL_Config hw_ready 50 2 HSI ?s = Some (0, s')" ..
  note inst = PLL_Config_success_frame [OF s']
  have "bit (PLLCFGR s') 26 \<and> \<not> bit (PLLCFGR s') 15"
    using inst by (simp add: hw_ready_PLLCFGR_bit rcc_zero_def)
  moreover have "bit (CR s') 0 \<and> bit (CR s') 7"
    using inst by (simp add: hw_ready_CR_bit rcc_zero_def)
  moreover have "s'\<lparr>CR := 0, PLLCFGR := 0\<rparr> = rcc_zero\<lparr>AHB1ENR := 7\<rparr>"
    using inst by (simp add: hw_ready_others rcc_zero_def)
  ultimately show ?thesis using s' by blast
qed

section \<open>Clock source enable and disable\<close>

lemma SetClkStatus_post:
  assumes "RCC_SetClkStatus hw c st s = Some (r, s')"
  shows "r = 0" and "bit (CR s') (c + 1)"
    and "poll hw (\<lambda>t. \<not> bit (CR t) (c + 1))
           (s\<lparr>CR := (if st = ON then set_bit c (CR s) else unset_bit c (CR s))\<rparr>) = Some s'"
proof -
  from assms show r: "r = 0"
    and p: "poll hw (\<lambda>t. \<not> bit (CR t) (c + 1))
           (s\<lparr>CR := (if st = ON then set_bit c (CR s) else unset_bit c (CR s))\<rparr>) = Some s'"
    by (auto simp add: SetClkStatus_eq split: option.splits)
  from poll_not_waiting[OF p] show "bit (CR s') (c + 1)" by simp
qed

lemma SetClkStatus_never_ready:
  assumes "\<not> bit (CR s) (c + 1)"
    and "\<And>t. \<not> bit (CR t) (c + 1) \<Longrightarrow> \<not> bit (CR (hw t)) (c + 1)"
  shows "RCC_SetClkStatus hw c st s = None"
proof -
  have "poll hw (\<lambda>t. \<not> bit (CR t) (c + 1))
          (s\<lparr>CR := (if st = ON then set_bit c (CR s) else unset_bit c (CR s))\<rparr>) = None"
  proof (rule poll_stuck[where I = "\<lambda>t. \<not> bit (CR t) (c + 1)"])
    from assms(1)
    show "\<not> bit (CR (s\<lparr>CR := (if st = ON then set_bit c (CR s) else unset_bit c (CR s))\<rparr>)) (c + 1)"
      by (simp add: bit_set_bit_u32 bit_unset_bit_u32)
  qed (rule assms(2))
  then show ?thesis by (simp add: SetClkStatus_eq)
qed

lemma set_bit_already_set: "bit (w::u32) c \<Longrightarrow> set_bit c w = w"
  by (rule bit_eqI) (auto simp add: bit_set_bit_u32)

lemma SetClkStatus_ON_enabled:
  assumes "bit (CR s) c"
  shows "RCC_SetClkStatus hw c ON s =
           (case poll hw (\<lambda>t. \<not> bit (CR t) (c + 1)) s of None \<Rightarrow> None | Some s2 \<Rightarrow> Some (0, s2))"
  by (simp add: SetClkStatus_eq set_bit_already_set[OF assms])

lemma SetClkStatus_ON_ready:
  assumes "bit (CR s) c" and "bit (CR s) (c + 1)"
  shows "RCC_SetClkStatus hw c ON s = Some (0, s)"
  using assms(2) by (simp add: SetClkStatus_ON_enabled[OF assms(1)] poll_done)

lemma SetClkStatus_ON_enabled_post:
  assumes "bit (CR s) c" and "RCC_SetClkStatus hw c ON s = Some (r, s')"
  shows "r = 0"
    and "preserves hw (\<lambda>t. bit (CR t) n) \<Longrightarrow> bit (CR s') n = bit (CR s) n"
proof -
  from assms(2) have r: "r = 0" and p: "poll hw (\<lambda>t. \<not> bit (CR t) (c + 1)) s = Some s'"
    by (auto simp add: SetClkStatus_ON_enabled[OF assms(1)] split: option.splits)
  show "r = 0" by (rule r)
  show "bit (CR s') n = bit (CR s) n" if "preserves hw (\<lambda>t. bit (CR t) n)"
    using poll_preserves[OF p that] .
qed

lemma SetClkStatus_ON_enabled_returns:
  assumes "bit (CR s) c"
    and "responds hw (\<lambda>t. bit (CR t) c) (\<lambda>t. bit (CR t) (c + 1))"
  shows "\<exists>s'. RCC_SetClkStatus hw c ON s = Some (0, s')"
proof -
  have "\<exists>s2. poll hw (\<lambda>t. \<not> bit (CR t) (c + 1)) s = Some s2"
    by (rule poll_responds[OF assms(2)]) (simp_all add: assms(1))
  then show ?thesis by (auto simp add: SetClkStatus_ON_enabled[OF assms(1)])
qed

lemma SetClkStatus_ON_twice:
  assumes "c \<le> 30" and "RCC_SetClkStatus hw c ON s = Some (r, s1)"
    and "preserves hw (\<lambda>t. bit (CR t) c)"
  shows "RCC_SetClkStatus hw c ON s1 = Some (0, s1)"
proof -
  note post = SetClkStatus_post[OF assms(2)]
  from poll_preserves[OF post(3) assms(3)] assms(1) have "bit (CR s1) c"
    by (simp add: bit_set_bit_u32)
  then show ?thesis using post(2) by (rule SetClkStatus_ON_ready)
qed

text \<open>
  Claim C1 fails for the status OFF: the wait of \<^verbatim>\<open>RCC_SetClkStatus\<close> is for the ready
  bit to be set, whatever the status. Switching off the internal oscillator while it is on
  and ready returns at once with the ready bit still set; switching it off when the ready
  bit is already clear never returns, although the hardware keeps the ready bit clear.
\<close>

theorem SetClkStatus_OFF_waits_for_ready_set:
  "RCC_SetClkStatus hw_ready HSI OFF (rcc_zero\<lparr>CR := 3\<rparr>) = Some (0, rcc_zero\<lparr>CR := 2\<rparr>) \<and>
   bit (CR (rcc_zero\<lparr>CR := 2\<rparr>)) (HSI + 1) \<and>
   RCC_SetClkStatus hw_ready HSI OFF (rcc_zero\<lparr>CR := 1\<rparr>) = None"
proof -
  have "RCC_SetClkStatus hw_ready HSI OFF (rcc_zero\<lparr>CR := 3\<rparr>) = Some (0, rcc_zero\<lparr>CR := 2\<rparr>)"
    by (simp add: RCC_SetClkStatus_def HSI_def rcc_zero_def poll_done)
  moreover have "bit (CR (rcc_zero\<lparr>CR := 2\<rparr>)) (HSI + 1)"
    by (simp add: HSI_def)
  moreover have "poll hw_ready (\<lambda>t. \<not> bit (CR t) 1) (rcc_zero\<lparr>CR := 0\<rparr>) = None"
    by (rule poll_stuck[where I = "\<lambda>t. \<not> bit (CR t) 0 \<and> \<not> bit (CR t) 1"])
       (simp_all add: hw_ready_CR)
  then have "RCC_SetClkStatus hw_ready HSI OFF (rcc_zero\<lparr>CR := 1\<rparr>) = None"
    by (simp add: SetClkStatus_eq HSI_def unset_bit_eq_and_not)
  ultimately show ?thesis by blast
qed

section \<open>Unbounded waits\<close>

lemma PLL_return_status:
  assumes "RCC_PLL_Config hw N M Src s = Some (r, s')"
  shows "r = 0 \<Longrightarrow> bit (CR s') 25" and "r \<noteq> 0 \<Longrightarrow> \<not> bit (CR s') 25"
    and "r \<noteq> 0 \<Longrightarrow>
           \<not> ((Src = HSI \<or> Src = HSE) \<and> 50 \<le> N \<and> N \<le> 432 \<and> M \<in> {2, 4, 6, 8})"
proof -
  show "bit (CR s') 25" if "r = 0"
  proof -
    from assms that have ok: "RCC_PLL_Config hw N M Src s = Some (0, s')" by simp
    from PLL_success_valid[OF ok] PLL_valid_post(2)[OF _ _ _ _ ok] show ?thesis by blast
  qed
  show "\<not> ((Src = HSI \<or> Src = HSE) \<and> 50 \<le> N \<and> N \<le> 432 \<and> M \<in> {2, 4, 6, 8})" if "r \<noteq> 0"
    using PLL_valid_post(1)[OF _ _ _ _ assms] that by auto
  show "\<not> bit (CR s') 25" if "r \<noteq> 0"
  proof -
    from PLL_first_wait[OF assms] obtain s1
      where p: "poll hw (\<lambda>t. bit (CR t) 25) (s\<lparr>CR := unset_bit 24 (CR s)\<rparr>) = Some s1" ..
    from poll_not_waiting[OF p] have "\<not> bit (CR s1) 25" by simp
    with assms that show ?thesis
      by (auto simp add: PLL_Config_eq p split: if_splits option.splits)
  qed
qed

lemma PLL_never_cleared:
  assumes "bit (CR s) 25" and "\<And>t. bit (CR t) 25 \<Longrightarrow> bit (CR (hw t)) 25"
  shows "RCC_PLL_Config hw N M Src s = None"
proof -
  have "poll hw (\<lambda>t. bit (CR t) 25) (s\<lparr>CR := unset_bit 24 (CR s)\<rparr>) = None"
  proof (rule poll_stuck[where I = "\<lambda>t. bit (CR t) 25"])
    from assms(1) show "bit (CR (s\<lparr>CR := unset_bit 24 (CR s)\<rparr>)) 25"
      by (simp add: bit_unset_bit_u32)
  qed (rule assms(2))
  then show ?thesis by (simp add: PLL_Config_eq)
qed

lemma PLL_never_locked:
  assumes "Src = HSI \<or> Src = HSE" and "50 \<le> N" and "N \<le> 432"
    and "M = 2 \<or> M = 4 \<or> M = 6 \<or> M = 8"
    and "\<And>t. \<not> bit (CR t) 25 \<Longrightarrow> \<not> bit (CR (hw t)) 25"
  shows "RCC_PLL_Config hw N M Src s = None"
proof (cases "poll hw (\<lambda>t. bit (CR t) 25) (s\<lparr>CR := unset_bit 24 (CR s)\<rparr>)")
  case None
  then show ?thesis by (simp add: PLL_Config_eq)
next
  case (Some s1)
  from poll_not_waiting[OF Some] have clear: "\<not> bit (CR s1) 25" by simp
  have "poll hw (\<lambda>t. \<not> bit (CR t) 25)
           (s1\<lparr>PLLCFGR := pllcfgr_p (PLLP_code M)
                              (pllcfgr_mn M N (pllcfgr_source Src (PLLCFGR s1))),
               CR := set_bit 24 (CR s1)\<rparr>) = None"
  proof (rule poll_stuck[where I = "\<lambda>t. \<not> bit (CR t) 25"])
    from clear
    show "\<not> bit (CR (s1\<lparr>PLLCFGR := pllcfgr_p (PLLP_code M)
                              (pllcfgr_mn M N (pllcfgr_source Src (PLLCFGR s1))),
               CR := set_bit 24 (CR s1)\<rparr>)) 25"
      by (simp add: bit_set_bit_u32)
  qed (rule assms(5))
  then show ?thesis by (simp add: PLL_valid[OF assms(1-4) Some])
qed

lemma cfgr_select_status:
  assumes "v \<le> 3"
  shows "drop_bit 2 (cfgr_select v w) AND 3 = drop_bit 2 w AND 3"
  by (rule bit_eqI) (auto simp add: bit_cfgr_select[OF assms] mask2_numeral bit_simps)

lemma SetSysClk_never_confirmed:
  assumes "v \<le> 3" and "drop_bit 2 (CFGR s) AND 3 \<noteq> v"
    and "\<And>t. drop_bit 2 (CFGR t) AND 3 \<noteq> v \<Longrightarrow> drop_bit 2 (CFGR (hw t)) AND 3 \<noteq> v"
  shows "RCC_SetSysClk hw v s = None"
proof -
  have "poll hw (\<lambda>t. drop_bit 2 (CFGR t) AND 3 \<noteq> v) (s\<lparr>CFGR := cfgr_select v (CFGR s)\<rparr>) = None"
  proof (rule poll_stuck[where I = "\<lambda>t. drop_bit 2 (CFGR t) AND 3 \<noteq> v"])
    from assms(2) show "drop_bit 2 (CFGR (s\<lparr>CFGR := cfgr_select v (CFGR s)\<rparr>)) AND 3 \<noteq> v"
      by (simp add: cfgr_select_status[OF assms(1)])
  qed (rule assms(3))
  then show ?thesis by (simp add: SetSysClk_eq[OF assms(1)])
qed

text \<open>
  Claim C7. No wait of the driver is bounded. \<^verbatim>\<open>RCC_SetClkStatus\<close> returns only with
  the ready bit set, and only 0; \<^verbatim>\<open>RCC_PLL_Config\<close> returns 0 only with the PLL ready
  bit set and returns 1 only with it clear and only for a rejected parameter;
  \<^verbatim>\<open>RCC_SetSysClk\<close> returns, for a value from 0 to 3, only 0 and only with the
  confirmation field equal to the value. With a hardware that never brings the polled
  status to the awaited value (never sets a clear ready bit, never clears a set PLL ready
  bit, never confirms the selected clock) the call does not return at all: there is no
  result, not a failure indicator.
\<close>

theorem waits_never_time_out:
  "(Clk_Type \<le> 30 \<longrightarrow>
      (\<forall>r s'. RCC_SetClkStatus hw Clk_Type Status s = Some (r, s') \<longrightarrow>
         r = 0 \<and> bit (CR s') (Clk_Type + 1)) \<and>
      (\<not> bit (CR s) (Clk_Type + 1) \<and>
       (\<forall>t. \<not> bit (CR t) (Clk_Type + 1) \<longrightarrow> \<not> bit (CR (hw t)) (Clk_Type + 1)) \<longrightarrow>
         RCC_SetClkStatus hw Clk_Type Status s = None)) \<and>
   (\<forall>r s'. RCC_PLL_Config hw PLL_Multiplexer PLL_Division Src s = Some (r, s') \<longrightarrow>
      (r = 0 \<longrightarrow> bit (CR s') 25) \<and>
      (r \<noteq> 0 \<longrightarrow> \<not> bit (CR s') 25 \<and>
         \<not> ((Src = HSI \<or> Src = HSE) \<and> 50 \<le> PLL_Multiplexer \<and> PLL_Multiplexer \<le> 432 \<and>
            PLL_Division \<in> {2, 4, 6, 8}))) \<and>
   (bit (CR s) 25 \<and> (\<forall>t. bit (CR t) 25 \<longrightarrow> bit (CR (hw t)) 25) \<longrightarrow>
      RCC_PLL_Config hw PLL_Multiplexer PLL_Division Src s = None) \<and>
   ((Src = HSI \<or> Src = HSE) \<and> 50 \<le> PLL_Multiplexer \<and> PLL_Multiplexer \<le> 432 \<and>
    PLL_Division \<in> {2, 4, 6, 8} \<and> (\<forall>t. \<not> bit (CR t) 25 \<longrightarrow> \<not> bit (CR (hw t)) 25) \<longrightarrow>
      RCC_PLL_Config hw PLL_Multiplexer PLL_Division Src s = None) \<and>
   (SYSClkType \<le> 3 \<longrightarrow>
      (\<forall>r s'. RCC_SetSysClk hw SYSClkType s = Some (r, s') \<longrightarrow>
         r = 0 \<and> drop_bit 2 (CFGR s') AND 3 = SYSClkType) \<and>
      (drop_bit 2 (CFGR s) AND 3 \<noteq> SYSClkType \<and>
       (\<forall>t. drop_bit 2 (CFGR t) AND 3 \<noteq> SYSClkType \<longrightarrow>
            drop_bit 2 (CFGR (hw t)) AND 3 \<noteq> SYSClkType) \<longrightarrow>
         RCC_SetSysClk hw SYSClkType s = None))"
proof (intro conjI allI impI)
  fix r s'
  assume res: "RCC_SetClkStatus hw Clk_Type Status s = Some (r, s')"
  show "r = 0" by (rule SetClkStatus_post(1)[OF res])
  show "bit (CR s') (Clk_Type + 1)" by (rule SetClkStatus_post(2)[OF res])
next
  assume "\<not> bit (CR s) (Clk_Type + 1) \<and>
       (\<forall>t. \<not> bit (CR t) (Clk_Type + 1) \<longrightarrow> \<not> bit (CR (hw t)) (Clk_Type + 1))"
  then show "RCC_SetClkStatus hw Clk_Type Status s = None"
    using SetClkStatus_never_ready[of s Clk_Type hw Status] by blast
next
  fix r s'
  assume res: "RCC_PLL_Config hw PLL_Multiplexer PLL_Division Src s = Some (r, s')"
  show "bit (CR s') 25" if "r = 0" by (rule PLL_return_status(1)[OF res that])
  show "\<not> bit (CR s') 25" if "r \<noteq> 0" by (rule PLL_return_status(2)[OF res that])
  show "\<not> ((Src = HSI \<or> Src = HSE) \<and> 50 \<le> PLL_Multiplexer \<and> PLL_Multiplexer \<le> 432 \<and>
            PLL_Division \<in> {2, 4, 6, 8})" if "r \<noteq> 0"
    by (rule PLL_return_status(3)[OF res that])
next
  assume "bit (CR s) 25 \<and> (\<forall>t. bit (CR t) 25 \<longrightarrow> bit (CR (hw t)) 25)"
  then show "RCC_PLL_Config hw PLL_Multiplexer PLL_Division Src s = None"
    using PLL_never_cleared[of s hw] by blast
next
  assume a: "(Src = HSI \<or> Src = HSE) \<and> 50 \<le> PLL_Multiplexer \<and> PLL_Multiplexer \<le> 432 \<and>
    PLL_Division \<in> {2, 4, 6, 8} \<and> (\<forall>t. \<not> bit (CR t) 25 \<longrightarrow> \<not> bit (CR (hw t)) 25)"
  then have src: "Src = HSI \<or> Src = HSE" and lo: "50 \<le> PLL_Multiplexer"
    and hi: "PLL_Multiplexer \<le> 432"
    and m: "PLL_Division = 2 \<or> PLL_Division = 4 \<or> PLL_Division = 6 \<or> PLL_Division = 8"
    and inv: "\<And>t. \<not> bit (CR t) 25 \<Longrightarrow> \<not> bit (CR (hw t)) 25"
    by simp_all
  show "RCC_PLL_Config hw PLL_Multiplexer PLL_Division Src s = None"
    by (rule PLL_never_locked[OF src lo hi m inv])
next
  fix r s'
  assume v: "SYSClkType \<le> 3" and res: "RCC_SetSysClk hw SYSClkType s = Some (r, s')"
  show "r = 0" by (rule SetSysClk_partial(1)[OF v res])
  show "drop_bit 2 (CFGR s') AND 3 = SYSClkType" by (rule SetSysClk_partial(2)[OF v res])
next
  assume v: "SYSClkType \<le> 3" and "drop_bit 2 (CFGR s) AND 3 \<noteq> SYSClkType \<and>
       (\<forall>t. drop_bit 2 (CFGR t) AND 3 \<noteq> SYSClkType \<longrightarrow>
            drop_bit 2 (CFGR (hw t)) AND 3 \<noteq> SYSClkType)"
  then show "RCC_SetSysClk hw SYSClkType s = None"
    using SetSysClk_never_confirmed[of SYSClkType s hw] by blast
qed

theorem waits_never_time_out_witness:
  "RCC_SetClkStatus hw_stuck HSE ON rcc_zero = None \<and>
   RCC_PLL_Config hw_stuck 50 2 HSI (rcc_zero\<lparr>CR := 0x02000000\<rparr>) = None \<and>
   RCC_PLL_Config hw_stuck 50 2 HSI rcc_zero = None \<and>
   RCC_SetSysClk hw_stuck 2 rcc_zero = None"
proof -
  note a = waits_never_time_out [of HSE hw_stuck ON rcc_zero 50 2 HSI 2]
  note b = waits_never_time_out [of HSE hw_stuck ON "rcc_zero\<lparr>CR := 0x02000000\<rparr>" 50 2 HSI 2]
  have "RCC_SetClkStatus hw_stuck HSE ON rcc_zero = None"
    using a by (simp add: HSE_def hw_stuck_def rcc_zero_def)
  moreover have "RCC_PLL_Config hw_stuck 50 2 HSI (rcc_zero\<lparr>CR := 0x02000000\<rparr>) = None"
    using b by (simp add: hw_stuck_def rcc_zero_def)
  moreover have "RCC_PLL_Config hw_stuck 50 2 HSI rcc_zero = None"
    using a by (simp add: hw_stuck_def)
  moreover have "RCC_SetSysClk hw_stuck 2 rcc_zero = None"
    using a by (simp add: hw_stuck_def rcc_zero_def)
  ultimately show ?thesis by blast
qed

section \<open>Idempotence of enabling\<close>

lemma AHB1_enable_idem:
  "n \<le> 31 \<Longrightarrow> bit (AHB1ENR s) n \<Longrightarrow> RCC_AHB1_EnableClk n s = (0, s)"
  by (simp add: RCC_AHB1_EnableClk_def or_bit_already_set)

lemma AHB1_enable_twice:
  "RCC_AHB1_EnableClk n (snd (RCC_AHB1_EnableClk n s)) = RCC_AHB1_EnableClk n s"
  by (simp add: RCC_AHB1_EnableClk_def)

lemma AHB2_enable_idem:
  "n \<le> 31 \<Longrightarrow> bit (AHB2ENR s) n \<Longrightarrow> RCC_AHB2_EnableClk n s = (0, s)"
  by (simp add: RCC_AHB2_EnableClk_def or_bit_already_set)

lemma AHB2_enable_twice:
  "RCC_AHB2_EnableClk n (snd (RCC_AHB2_EnableClk n s)) = RCC_AHB2_EnableClk n s"
  by (simp add: RCC_AHB2_EnableClk_def)

lemma AHB3_enable_idem:
  "n \<le> 31 \<Longrightarrow> bit (AHB3ENR s) n \<Longrightarrow> RCC_AHB3_EnableClk n s = (0, s)"
  by (simp add: RCC_AHB3_EnableClk_def or_bit_already_set)

lemma AHB3_enable_twice:
  "RCC_AHB3_EnableClk n (snd (RCC_AHB3_EnableClk n s)) = RCC_AHB3_EnableClk n s"
  by (simp add: RCC_AHB3_EnableClk_def)

lemma APB1_enable_idem:
  "n \<le> 31 \<Longrightarrow> bit (APB1ENR s) n \<Longrightarrow> RCC_APB1_EnableClk n s = (0, s)"
  by (simp add: RCC_APB1_EnableClk_def or_bit_already_set)

lemma APB1_enable_twice:
  "RCC_APB1_EnableClk n (snd (RCC_APB1_EnableClk n s)) = RCC_APB1_EnableClk n s"
  by (simp add: RCC_APB1_EnableClk_def)

lemma APB2_enable_idem:
  "n \<le> 31 \<Longrightarrow> bit (APB2ENR s) n \<Longrightarrow> RCC_APB2_EnableClk n s = (0, s)"
  by (simp add: RCC_APB2_EnableClk_def or_bit_already_set)

lemma APB2_enable_twice:
  "RCC_APB2_EnableClk n (snd (RCC_APB2_EnableClk n s)) = RCC_APB2_EnableClk n s"
  by (simp add: RCC_APB2_EnableClk_def)

lemma gating_enable_idem:
  assumes "n \<le> 31"
  shows "(bit (AHB1ENR s) n \<longrightarrow> RCC_AHB1_EnableClk n s = (0, s)) \<and>
         (bit (AHB2ENR s) n \<longrightarrow> RCC_AHB2_EnableClk n s = (0, s)) \<and>
         (bit (AHB3ENR s) n \<longrightarrow> RCC_AHB3_EnableClk n s = (0, s)) \<and>
         (bit (APB1ENR s) n \<longrightarrow> RCC_APB1_EnableClk n s = (0, s)) \<and>
         (bit (APB2ENR s) n \<longrightarrow> RCC_APB2_EnableClk n s = (0, s))"
  using AHB1_enable_idem[OF assms, of s] AHB2_enable_idem[OF assms, of s]
    AHB3_enable_idem[OF assms, of s] APB1_enable_idem[OF assms, of s]
    APB2_enable_idem[OF assms, of s]
  by blast

lemma gating_enable_twice:
  "RCC_AHB1_EnableClk n (snd (RCC_AHB1_EnableClk n s)) = RCC_AHB1_EnableClk n s \<and>
   RCC_AHB2_EnableClk n (snd (RCC_AHB2_EnableClk n s)) = RCC_AHB2_EnableClk n s \<and>
   RCC_AHB3_EnableClk n (snd (RCC_AHB3_EnableClk n s)) = RCC_AHB3_EnableClk n s \<and>
   RCC_APB1_EnableClk n (snd (RCC_APB1_EnableClk n s)) = RCC_APB1_EnableClk n s \<and>
   RCC_APB2_EnableClk n (snd (RCC_APB2_EnableClk n s)) = RCC_APB2_EnableClk n s"
  by (intro conjI AHB1_enable_twice AHB2_enable_twice AHB3_enable_twice APB1_enable_twice
      APB2_enable_twice)

text \<open>
  Claim C9. Enabling is idempotent. For a clock source whose enable bit is set,
  \<^verbatim>\<open>RCC_SetClkStatus\<close> with ON writes the control register back unchanged: whenever
  it returns it returns 0 and every bit of CR that the hardware does not drive has its
  prior value, it returns once the hardware sets the ready bit, and when the ready bit is
  already set it returns 0 at once with all registers unchanged. A second call after a
  call that returned, the hardware not clearing the enable bit, returns 0 at once and
  changes nothing. For a peripheral position 0 to 31 whose enable bit is set, the enable
  function of each bus returns 0 and leaves all registers unchanged, and enabling twice
  gives the result of enabling once.
\<close>

theorem enabling_is_idempotent:
  "(Clk_Type \<le> 30 \<and> bit (CR s) Clk_Type \<longrightarrow>
      (bit (CR s) (Clk_Type + 1) \<longrightarrow> RCC_SetClkStatus hw Clk_Type ON s = Some (0, s)) \<and>
      (\<forall>r s'. RCC_SetClkStatus hw Clk_Type ON s = Some (r, s') \<longrightarrow>
         r = 0 \<and> (\<forall>n. preserves hw (\<lambda>t. bit (CR t) n) \<longrightarrow> bit (CR s') n = bit (CR s) n)) \<and>
      (responds hw (\<lambda>t. bit (CR t) Clk_Type) (\<lambda>t. bit (CR t) (Clk_Type + 1)) \<longrightarrow>
         (\<exists>s'. RCC_SetClkStatus hw Clk_Type ON s = Some (0, s')))) \<and>
   (Clk_Type \<le> 30 \<and> preserves hw (\<lambda>t. bit (CR t) Clk_Type) \<longrightarrow>
      (\<forall>r s1. RCC_SetClkStatus hw Clk_Type ON s = Some (r, s1) \<longrightarrow>
         RCC_SetClkStatus hw Clk_Type ON s1 = Some (0, s1))) \<and>
   (PeripheralName \<le> 31 \<longrightarrow>
      (bit (AHB1ENR s) PeripheralName \<longrightarrow> RCC_AHB1_EnableClk PeripheralName s = (0, s)) \<and>
      (bit (AHB2ENR s) PeripheralName \<longrightarrow> RCC_AHB2_EnableClk PeripheralName s = (0, s)) \<and>
      (bit (AHB3ENR s) PeripheralName \<longrightarrow> RCC_AHB3_EnableClk PeripheralName s = (0, s)) \<and>
      (bit (APB1ENR s) PeripheralName \<longrightarrow> RCC_APB1_EnableClk PeripheralName s = (0, s)) \<and>
      (bit (APB2ENR s) PeripheralName \<longrightarrow> RCC_APB2_EnableClk PeripheralName s = (0, s))) \<and>
   RCC_AHB1_EnableClk PeripheralName (snd (RCC_AHB1_EnableClk PeripheralName s)) =
     RCC_AHB1_EnableClk PeripheralName s \<and>
   RCC_AHB2_EnableClk PeripheralName (snd (RCC_AHB2_EnableClk PeripheralName s)) =
     RCC_AHB2_EnableClk PeripheralName s \<and>
   RCC_AHB3_EnableClk PeripheralName (snd (RCC_AHB3_EnableClk PeripheralName s)) =
     RCC_AHB3_EnableClk PeripheralName s \<and>
   RCC_APB1_EnableClk PeripheralName (snd (RCC_APB1_EnableClk PeripheralName s)) =
     RCC_APB1_EnableClk PeripheralName s \<and>
   RCC_APB2_EnableClk PeripheralName (snd (RCC_APB2_EnableClk PeripheralName s)) =
     RCC_APB2_EnableClk PeripheralName s"
proof -
  have clk: "(bit (CR s) (Clk_Type + 1) \<longrightarrow> RCC_SetClkStatus hw Clk_Type ON s = Some (0, s)) \<and>
      (\<forall>r s'. RCC_SetClkStatus hw Clk_Type ON s = Some (r, s') \<longrightarrow>
         r = 0 \<and> (\<forall>n. preserves hw (\<lambda>t. bit (CR t) n) \<longrightarrow> bit (CR s') n = bit (CR s) n)) \<and>
      (responds hw (\<lambda>t. bit (CR t) Clk_Type) (\<lambda>t. bit (CR t) (Clk_Type + 1)) \<longrightarrow>
         (\<exists>s'. RCC_SetClkStatus hw Clk_Type ON s = Some (0, s')))"
    if "Clk_Type \<le> 30 \<and> bit (CR s) Clk_Type"
  proof -
    from that have en: "bit (CR s) Clk_Type" ..
    show ?thesis
    proof (intro conjI allI impI)
      show "RCC_SetClkStatus hw Clk_Type ON s = Some (0, s)" if "bit (CR s) (Clk_Type + 1)"
        using en that by (rule SetClkStatus_ON_ready)
      show "r = 0" if "RCC_SetClkStatus hw Clk_Type ON s = Some (r, s')" for r s'
        by (rule SetClkStatus_ON_enabled_post(1)[OF en that])
      show "bit (CR s') n = bit (CR s) n"
        if "RCC_SetClkStatus hw Clk_Type ON s = Some (r, s')" "preserves hw (\<lambda>t. bit (CR t) n)"
        for r s' n
        by (rule SetClkStatus_ON_enabled_post(2)[OF en that])
      show "\<exists>s'. RCC_SetClkStatus hw Clk_Type ON s = Some (0, s')"
        if "responds hw (\<lambda>t. bit (CR t) Clk_Type) (\<lambda>t. bit (CR t) (Clk_Type + 1))"
        using en that by (rule SetClkStatus_ON_enabled_returns)
    qed
  qed
  have twice: "\<forall>r s1. RCC_SetClkStatus hw Clk_Type ON s = Some (r, s1) \<longrightarrow>
         RCC_SetClkStatus hw Clk_Type ON s1 = Some (0, s1)"
    if "Clk_Type \<le> 30 \<and> preserves hw (\<lambda>t. bit (CR t) Clk_Type)"
    using that SetClkStatus_ON_twice[of Clk_Type hw s] by blast
  note idem = gating_enable_idem[of PeripheralName s]
  note again = gating_enable_twice[of PeripheralName s]
  show ?thesis
    by (rule conjI, rule impI, erule clk, rule conjI, rule impI, erule twice,
        rule conjI, rule impI, erule idem, rule again)
qed

theorem enabling_is_idempotent_witness:
  "RCC_SetClkStatus hw_ready HSI ON (rcc_zero\<lparr>CR := 3, AHB1ENR := 8\<rparr>) =
     Some (0, rcc_zero\<lparr>CR := 3, AHB1ENR := 8\<rparr>) \<and>
   (\<exists>s'. RCC_SetClkStatus hw_ready HSE ON (rcc_zero\<lparr>CR := 0x10000\<rparr>) = Some (0, s') \<and>
         bit (CR s') 16 \<and> \<not> bit (CR s') 0 \<and>
         RCC_SetClkStatus hw_ready HSE ON s' = Some (0, s')) \<and>
   RCC_AHB1_EnableClk 3 (rcc_zero\<lparr>CR := 3, AHB1ENR := 8\<rparr>) =
     (0, rcc_zero\<lparr>CR := 3, AHB1ENR := 8\<rparr>)"
proof -
  let ?s = "rcc_zero\<lparr>CR := 3, AHB1ENR := 8\<rparr>"
  let ?t = "rcc_zero\<lparr>CR := 0x10000\<rparr>"
  note a = enabling_is_idempotent [of HSI ?s hw_ready 3]
  note b = enabling_is_idempotent [of HSE ?t hw_ready 3]
  have "RCC_SetClkStatus hw_ready HSI ON ?s = Some (0, ?s)"
    using a by (simp add: HSI_def)
  moreover have "RCC_AHB1_EnableClk 3 ?s = (0, ?s)"
    using a by simp
  moreover have "\<exists>s'. RCC_SetClkStatus hw_ready HSE ON ?t = Some (0, s') \<and>
         bit (CR s') 16 \<and> \<not> bit (CR s') 0 \<and> RCC_SetClkStatus hw_ready HSE ON s' = Some (0, s')"
  proof -
    have pre: "HSE \<le> 30 \<and> bit (CR ?t) HSE" by (simp add: HSE_def)
    have r: "responds hw_ready (\<lambda>t. bit (CR t) HSE) (\<lambda>t. bit (CR t) (HSE + 1))"
      unfolding HSE_def by (rule hw_ready_follows(1)) simp
    have p: "HSE \<le> 30 \<and> preserves hw_ready (\<lambda>t. bit (CR t) HSE)"
      by (simp add: HSE_def hw_ready_CR_bit)
    from b[THEN conjunct1, rule_format, OF pre, THEN conjunct2, THEN conjunct2, rule_format, OF r]
    obtain s' where s': "RCC_SetClkStatus hw_ready HSE ON ?t = Some (0, s')" ..
    from b[THEN conjunct1, rule_format, OF pre, THEN conjunct2, THEN conjunct1, rule_format, OF s']
    have bits: "\<And>n. preserves hw_ready (\<lambda>t. bit (CR t) n) \<Longrightarrow> bit (CR s') n = bit (CR ?t) n"
      by blast
    have "bit (CR s') 16 \<and> \<not> bit (CR s') 0"
      by (simp add: bits hw_ready_CR_bit)
    moreover from b[THEN conjunct2, THEN conjunct1, rule_format, OF p s']
    have "RCC_SetClkStatus hw_ready HSE ON s' = Some (0, s')" .
    ultimately show ?thesis using s' by blast
  qed
  ultimately show ?thesis by blast
qed

end
